theory Spec2Isabelle
  imports Complex_Main "HOL-Library.AList"
begin

section \<open>Options, traversal context and the host\<close>

text \<open>
  JavaScript numbers are modelled as integers. An optional field of \<open>Options\<close> is an
  \<open>option\<close>; \<open>truthy\<close> is JavaScript's truthiness of an optional number (absent and 0
  are falsy). A callback is modelled by its presence; its invocations are recorded in the
  event log of the world.
\<close>

datatype reason = Timeout | MaxNodes

datatype error = CaptureAbortedError reason | OtherError string

datatype event = Progress int int | Yielded | Resolved string

record CloneContext =
  nodeCount :: int
  lastYieldTime :: "int option"
  totalNodes :: "int option"

record 'n Options =
  filter_opt :: "('n \<Rightarrow> bool) option"
  nonBlocking :: bool
  yieldEvery :: "int option"
  yieldBudget :: "int option"
  onProgress :: bool
  maxNodes :: "int option"
  timeout :: "int option"
  onImageErrorHandler :: bool
  startTime :: "int option"

text \<open>
  The mutable part of a capture: the context object \<open>options._context\<close> (absent when
  \<open>initializeOptions\<close> did not create it), the host clock read by \<open>Date.now()\<close>, the time
  the host keeps control at each \<open>yieldToMain()\<close>, and the log of observable events.
  The clock only advances where the model says so: when a node is processed and when the
  traversal yields; the reads of \<open>Date.now()\<close> inside one tick return the same value.
\<close>

record world =
  ctx :: "CloneContext option"
  now :: int
  yieldDelay :: nat
  events :: "event list"

text \<open>
  What a call does: it returns a value, throws (a rejected promise), runs out of fuel (for
  the functions whose recursion is bounded by a fuel argument), or leaves the model
  (\<open>Unmodelled\<close>: the call depends on a part of the host that the model does not describe,
  and the model says nothing about what the code does from there). The state reached is
  kept in every case: a mutation made before a throw stays made.
\<close>

datatype 'a outcome = Return 'a | Throw error | OutOfFuel | Unmodelled

type_synonym 'a result = "'a outcome \<times> world"

definition bind :: "'a result \<Rightarrow> ('a \<Rightarrow> world \<Rightarrow> 'b result) \<Rightarrow> 'b result" where
  "bind r k = (case r of
                 (Return a, w) \<Rightarrow> k a w
               | (Throw e, w) \<Rightarrow> (Throw e, w)
               | (OutOfFuel, w) \<Rightarrow> (OutOfFuel, w)
               | (Unmodelled, w) \<Rightarrow> (Unmodelled, w))"

definition tryCatch :: "'a result \<Rightarrow> (error \<Rightarrow> world \<Rightarrow> 'a result) \<Rightarrow> 'a result" where
  "tryCatch r handler = (case r of
                 (Return a, w) \<Rightarrow> (Return a, w)
               | (Throw e, w) \<Rightarrow> handler e w
               | (OutOfFuel, w) \<Rightarrow> (OutOfFuel, w)
               | (Unmodelled, w) \<Rightarrow> (Unmodelled, w))"

definition truthy :: "int option \<Rightarrow> bool" where
  "truthy v = (case v of None \<Rightarrow> False | Some n \<Rightarrow> n \<noteq> 0)"

definition yieldToMain :: "world \<Rightarrow> world" where
  "yieldToMain w = w\<lparr>now := now w + int (yieldDelay w), events := events w @ [Yielded]\<rparr>"

section \<open>Execution governor\<close>

definition checkLimits :: "'n Options \<Rightarrow> world \<Rightarrow> error option" where
  "checkLimits options w =
     (if truthy (maxNodes options) \<and> ctx w \<noteq> None
         \<and> the (maxNodes options) \<le> nodeCount (the (ctx w))
      then Some (CaptureAbortedError MaxNodes)
      else if truthy (timeout options) \<and> truthy (startTime options)
         \<and> the (timeout options) \<le> now w - the (startTime options)
      then Some (CaptureAbortedError Timeout)
      else None)"

definition shouldYield :: "'n Options \<Rightarrow> CloneContext \<Rightarrow> int \<Rightarrow> bool" where
  "shouldYield options c t =
     (case yieldBudget options of
        Some budget \<Rightarrow>
          budget \<le> t - (case lastYieldTime c of Some l \<Rightarrow> l
                         | None \<Rightarrow> (case startTime options of Some s \<Rightarrow> s | None \<Rightarrow> t))
      | None \<Rightarrow>
          (let every = (case yieldEvery options of Some n \<Rightarrow> n | None \<Rightarrow> 50)
           in every \<noteq> 0 \<and> nodeCount c mod every = 0))"

definition reportAndYield :: "'n Options \<Rightarrow> CloneContext \<Rightarrow> world \<Rightarrow> world" where
  "reportAndYield options c w =
     (let w1 = (if onProgress options \<and> truthy (totalNodes c)
                then w\<lparr>events := events w @ [Progress (nodeCount c) (the (totalNodes c))]\<rparr>
                else w)
      in if shouldYield options c (now w1)
         then yieldToMain (w1\<lparr>ctx := Some (c\<lparr>lastYieldTime := Some (now w1)\<rparr>)\<rparr>)
         else w1)"

definition maybeYieldToMain :: "'n Options \<Rightarrow> world \<Rightarrow> unit result" where
  "maybeYieldToMain options w =
     (case ctx w of
        None \<Rightarrow> (Return (), w)
      | Some c0 \<Rightarrow>
          if \<not> nonBlocking options then (Return (), w)
          else
            let c = c0\<lparr>nodeCount := nodeCount c0 + 1\<rparr>;
                w1 = w\<lparr>ctx := Some c\<rparr>
            in (case checkLimits options w1 of
                  Some e \<Rightarrow> (Throw e, w1)
                | None \<Rightarrow> (Return (), reportAndYield options c w1)))"

definition maybeYieldToMain_embed :: "'n Options \<Rightarrow> world \<Rightarrow> unit result" where
  "maybeYieldToMain_embed options w =
     (case ctx w of
        None \<Rightarrow> (Return (), w)
      | Some c0 \<Rightarrow>
          if \<not> nonBlocking options then (Return (), w)
          else
            let c = c0\<lparr>nodeCount := nodeCount c0 + 1\<rparr>;
                w1 = w\<lparr>ctx := Some c\<rparr>
            in (Return (), reportAndYield options c w1))"

text \<open>The empty options object \<open>{}\<close>, the default argument of the entry points.\<close>

definition noOptions :: "'n Options" where
  "noOptions = \<lparr>filter_opt = None, nonBlocking = False, yieldEvery = None,
     yieldBudget = None, onProgress = False, maxNodes = None, timeout = None,
     onImageErrorHandler = False, startTime = None\<rparr>"

text \<open>The two conditions tested by \<open>checkLimits\<close>, as properties of a state.\<close>

definition nodeCapReached :: "'n Options \<Rightarrow> world \<Rightarrow> bool" where
  "nodeCapReached options w =
     (case maxNodes options of
        None \<Rightarrow> False
      | Some cap \<Rightarrow>
          (case ctx w of None \<Rightarrow> False | Some c \<Rightarrow> cap \<noteq> 0 \<and> cap \<le> nodeCount c))"

definition timeCapReached :: "'n Options \<Rightarrow> world \<Rightarrow> bool" where
  "timeCapReached options w =
     (case timeout options of
        None \<Rightarrow> False
      | Some t \<Rightarrow>
          (case startTime options of
             None \<Rightarrow> False
           | Some s \<Rightarrow> t \<noteq> 0 \<and> s \<noteq> 0 \<and> t \<le> now w - s))"

section \<open>Raster surfaces\<close>

text \<open>
  A raster surface (a canvas, an \<open>OffscreenCanvas\<close>, a video frame) is its dimensions and
  its rows of pixels, top row first. \<open>has2d\<close> says whether \<open>getContext('2d')\<close> gives a
  context. Reading and writing pixels is modelled as exact: \<open>getImageData\<close> returns the
  rows asked for and \<open>putImageData\<close> stores them unchanged.
\<close>

type_synonym pixel = nat

record surface =
  width :: nat
  height :: nat
  rows :: "pixel list list"
  has2d :: bool

definition noSurface :: surface where
  "noSurface = \<lparr>width = 0, height = 0, rows = [], has2d = True\<rparr>"

definition getImageData :: "surface \<Rightarrow> nat \<Rightarrow> nat \<Rightarrow> pixel list list" where
  "getImageData s y h = take h (drop y (rows s))"

definition putImageData :: "surface \<Rightarrow> pixel list list \<Rightarrow> nat \<Rightarrow> surface" where
  "putImageData s imageData y =
     s\<lparr>rows := take (length (rows s))
                  (take y (rows s) @ imageData @ drop (y + length imageData) (rows s))\<rparr>"

definition OffscreenCanvas :: "bool \<Rightarrow> nat \<Rightarrow> nat \<Rightarrow> surface" where
  "OffscreenCanvas ctx2d w h =
     \<lparr>width = w, height = h, rows = replicate h (replicate w 0), has2d = ctx2d\<rparr>"

definition STRIP_HEIGHT :: nat where
  "STRIP_HEIGHT = 256"

text \<open>\<open>Math.ceil(height / STRIP_HEIGHT)\<close> on natural numbers.\<close>

definition totalStrips :: "nat \<Rightarrow> nat" where
  "totalStrips h = (h + (STRIP_HEIGHT - 1)) div STRIP_HEIGHT"

definition stripY :: "nat \<Rightarrow> nat" where
  "stripY i = i * STRIP_HEIGHT"

definition stripHeight :: "nat \<Rightarrow> nat \<Rightarrow> nat" where
  "stripHeight h i = min STRIP_HEIGHT (h - stripY i)"

text \<open>
  The strip loop of \<open>canvasToDataURLChunked\<close>: strip \<open>i\<close> is read from the source and
  written to the auxiliary surface at the same row; after every fourth strip the loop
  yields when \<open>nonBlocking\<close> is set.
\<close>

function stripLoop :: "'n Options \<Rightarrow> surface \<Rightarrow> nat \<Rightarrow> surface \<Rightarrow> world \<Rightarrow> surface \<times> world" where
  "stripLoop options sourceCanvas i offscreen w =
     (if i < totalStrips (height sourceCanvas)
      then
        let y = stripY i;
            imageData = getImageData sourceCanvas y (stripHeight (height sourceCanvas) i);
            offscreen1 = putImageData offscreen imageData y;
            w1 = (if nonBlocking options \<and> i mod 4 = 3 then yieldToMain w else w)
        in stripLoop options sourceCanvas (i + 1) offscreen1 w1
      else (offscreen, w))"
  by pat_completeness auto
termination
  by (relation "measure (\<lambda>(options, sourceCanvas, i, offscreen, w).
                  totalStrips (height sourceCanvas) - i)") auto

declare stripLoop.simps [simp del]

section \<open>Document tree\<close>

text \<open>
  The interface an element implements, as tested by \<open>isInstanceOfElement\<close>.
\<close>

datatype iface =
    HTMLCanvasElement | HTMLVideoElement | HTMLIFrameElement
  | HTMLImageElement | SVGImageElement
  | HTMLTextAreaElement | HTMLInputElement | HTMLSelectElement
  | OtherElement

text \<open>
  The data of an element that the traversal reads or writes. \<open>nid\<close> identifies a node of
  the source document; a clone carries the \<open>nid\<close> of the node it was made from. \<open>ms\<close> is
  the wall-clock time the host spends on the node's own processing when it is cloned (an
  input of the model: it is how the clock advances during a traversal). \<open>localName\<close> is
  the local name of the element and \<open>htmlNamespace\<close> says whether the element is in the
  HTML namespace (of an HTML document); names have no prefix. \<open>style\<close> is the
  inline style (property, value, priority); \<open>computed\<close> is the resolved style of the node
  and \<open>hasCssText\<close> says whether the host serialises it as a non-empty \<open>cssText\<close>.
  \<open>bitmap\<close> is the surface of a canvas, or the current frame of a video at its rendered
  size.
\<close>

record props =
  nid :: nat
  ms :: nat
  localName :: string
  htmlNamespace :: bool
  iface :: iface
  attributes :: "(string \<times> string) list"
  style :: "(string \<times> string \<times> string) list"
  hasCssText :: bool
  computed :: "(string \<times> string \<times> string) list"
  currentValue :: string
  bitmap :: surface
  currentSrc :: string
  poster :: string

text \<open>
  A node is a text (or comment) node, or an element with its child nodes, the children of
  its shadow root when it hosts one, the body of its nested document when it is a frame
  whose document is accessible, and the nodes assigned to it when it is a slot.
\<close>

datatype node =
    TextNode nat string
  | Element props "node list" "node list option" "node option" "node list"

fun isElement :: "node \<Rightarrow> bool" where
  "isElement (TextNode _ _) = False"
| "isElement (Element _ _ _ _ _) = True"

fun nodeId :: "node \<Rightarrow> nat" where
  "nodeId (TextNode i _) = i"
| "nodeId (Element p _ _ _ _) = nid p"

fun childNodes :: "node \<Rightarrow> node list" where
  "childNodes (TextNode _ _) = []"
| "childNodes (Element _ ks _ _ _) = ks"

fun isInstanceOfElement :: "node \<Rightarrow> iface \<Rightarrow> bool" where
  "isInstanceOfElement (TextNode _ _) _ = False"
| "isInstanceOfElement (Element p _ _ _ _) i = (iface p = i)"

definition toUpperCase :: "string \<Rightarrow> string" where
  "toUpperCase s =
     map (\<lambda>c. case map_of (zip ''abcdefghijklmnopqrstuvwxyz'' ''ABCDEFGHIJKLMNOPQRSTUVWXYZ'') c of
                 Some u \<Rightarrow> u | None \<Rightarrow> c) s"

definition toLowerCase :: "string \<Rightarrow> string" where
  "toLowerCase s =
     map (\<lambda>c. case map_of (zip ''ABCDEFGHIJKLMNOPQRSTUVWXYZ'' ''abcdefghijklmnopqrstuvwxyz'') c of
                 Some l \<Rightarrow> l | None \<Rightarrow> c) s"

text \<open>
  \<open>Element.tagName\<close>: the name of the element, in upper case for an element in the HTML
  namespace.
\<close>

definition tagName :: "props \<Rightarrow> string" where
  "tagName p = (if htmlNamespace p then toUpperCase (localName p) else localName p)"

fun isSlotElement :: "node \<Rightarrow> bool" where
  "isSlotElement (TextNode _ _) = False"
| "isSlotElement (Element p _ _ _ _) = (toUpperCase (tagName p) = ''SLOT'')"

fun isSVGElement :: "node \<Rightarrow> bool" where
  "isSVGElement (TextNode _ _) = False"
| "isSVGElement (Element p _ _ _ _) = (toUpperCase (tagName p) = ''SVG'')"

text \<open>
  \<open>Node.cloneNode(deep)\<close>: the copy has the attributes of the node and, when deep, copies
  of its children; it has no shadow root, no nested document and no assigned nodes.
\<close>

fun deepClone :: "node \<Rightarrow> node" where
  "deepClone (TextNode i s) = TextNode i s"
| "deepClone (Element p ks sh b a) = Element p (map deepClone ks) None None []"

fun shallowClone :: "node \<Rightarrow> node" where
  "shallowClone (TextNode i s) = TextNode i s"
| "shallowClone (Element p ks sh b a) = Element p [] None None []"

definition domCloneNode :: "node \<Rightarrow> bool \<Rightarrow> node" where
  "domCloneNode n deep = (if deep then deepClone n else shallowClone n)"

fun appendChild :: "node \<Rightarrow> node \<Rightarrow> node" where
  "appendChild (TextNode i s) child = TextNode i s"
| "appendChild (Element p ks sh b a) child = Element p (ks @ [child]) sh b a"

fun getAttribute :: "node \<Rightarrow> string \<Rightarrow> string option" where
  "getAttribute (TextNode _ _) name = None"
| "getAttribute (Element p _ _ _ _) name = map_of (attributes p) name"

fun setAttribute :: "node \<Rightarrow> string \<Rightarrow> string \<Rightarrow> node" where
  "setAttribute (TextNode i s) name v = TextNode i s"
| "setAttribute (Element p ks sh b a) name v =
     Element (p\<lparr>attributes := AList.update name v (attributes p)\<rparr>) ks sh b a"

text \<open>All nodes of a subtree in document order, and the nodes below a node.\<close>

fun subtree :: "node \<Rightarrow> node list" where
  "subtree (TextNode i s) = [TextNode i s]"
| "subtree (Element p ks sh b a) = Element p ks sh b a # concat (map subtree ks)"

definition descendants :: "node \<Rightarrow> node list" where
  "descendants n = concat (map subtree (childNodes n))"


text \<open>
  Selectors. The model has the universal selector \<open>*\<close>, a type selector (an element name)
  and an ID selector \<open>#x\<close>, where a name is a letter or underscore followed by letters,
  digits, hyphens and underscores. \<open>parseSelector\<close> reads a string as one of these; any
  other string (one the DOM refuses with a \<open>SyntaxError\<close>, or a selector of another form)
  is outside the model. A type selector matches an element by its local name, compared in
  lower case for an element in the HTML namespace; an ID selector matches the elements
  whose \<open>id\<close> attribute is the given name (a document in no-quirks mode).
\<close>

datatype selector = Universal | TypeSelector string | IdSelector string

definition isDigit :: "char \<Rightarrow> bool" where
  "isDigit c = (c \<in> set ''0123456789'')"

definition isNameStart :: "char \<Rightarrow> bool" where
  "isNameStart c = (c \<in> set ''abcdefghijklmnopqrstuvwxyzABCDEFGHIJKLMNOPQRSTUVWXYZ_'')"

definition isIdentifier :: "string \<Rightarrow> bool" where
  "isIdentifier s =
     (case s of
        [] \<Rightarrow> False
      | c # cs \<Rightarrow> isNameStart c \<and> list_all (\<lambda>d. isNameStart d \<or> isDigit d \<or> d = CHR ''-'') cs)"

definition parseSelector :: "string \<Rightarrow> selector option" where
  "parseSelector s =
     (if s = ''*'' then Some Universal
      else if isIdentifier s then Some (TypeSelector s)
      else (case s of
              [] \<Rightarrow> None
            | c # cs \<Rightarrow> if c = CHR ''#'' \<and> isIdentifier cs then Some (IdSelector cs) else None))"

fun matches :: "selector \<Rightarrow> node \<Rightarrow> bool" where
  "matches sel (TextNode _ _) = False"
| "matches Universal (Element p _ _ _ _) = True"
| "matches (TypeSelector name) (Element p _ _ _ _) =
     (localName p = (if htmlNamespace p then toLowerCase name else name))"
| "matches (IdSelector x) (Element p _ _ _ _) = (map_of (attributes p) ''id'' = Some x)"

definition querySelectorAll :: "node \<Rightarrow> selector \<Rightarrow> node list" where
  "querySelectorAll n sel = filter (matches sel) (descendants n)"

definition querySelector :: "node \<Rightarrow> selector \<Rightarrow> node option" where
  "querySelector n sel = (case querySelectorAll n sel of [] \<Rightarrow> None | m # _ \<Rightarrow> Some m)"

text \<open>
  The host: whether \<open>OffscreenCanvas\<close> exists and gives a 2d context, whether
  \<open>convertToBlob\<close> and the file reader succeed, the image encoder (a function of the
  dimensions and pixels of a surface), the external resource resolver
  \<open>resourceToDataURL\<close> (\<open>None\<close> when it rejects), whether an image element finishes
  loading a given source, the result of \<open>getStyleProperties\<close>, the elements of the
  document that \<open>document.querySelector\<close> searches, and the style system: which
  properties it supports and which values its parser accepts for a property.
\<close>

record host =
  offscreenSupported :: bool
  offscreen2d :: bool
  blobOk :: bool
  encode :: "nat \<Rightarrow> nat \<Rightarrow> pixel list list \<Rightarrow> string"
  resourceToDataURL :: "string \<Rightarrow> string option"
  imageLoads :: "string \<Rightarrow> bool"
  styleProperties :: "string list"
  document :: "node list"
  cssSupports :: "string \<Rightarrow> bool"
  cssParses :: "string \<Rightarrow> string \<Rightarrow> bool"

definition documentQuerySelector :: "host \<Rightarrow> selector \<Rightarrow> node option" where
  "documentQuerySelector h sel =
     (case filter (matches sel) (concat (map subtree (document h))) of
        [] \<Rightarrow> None | m # _ \<Rightarrow> Some m)"

section \<open>Raster surfaces and media as still images\<close>

definition toDataURL :: "host \<Rightarrow> surface \<Rightarrow> string" where
  "toDataURL h s =
     (if width s = 0 \<or> height s = 0 then ''data:,''
      else ''data:image/png;base64,'' @ encode h (width s) (height s) (rows s))"

text \<open>
  Modelled from the spec: \<open>createImage\<close> (in the utilities, not under src) gives the still
  image that becomes the clone: an image element whose source is the given URL.
\<close>

definition createImage :: "nat \<Rightarrow> string \<Rightarrow> node" where
  "createImage i url =
     Element \<lparr>nid = i, ms = 0, localName = ''img'', htmlNamespace = True,
              iface = HTMLImageElement,
              attributes = [(''src'', url)], style = [], hasCssText = False, computed = [],
              currentValue = [], bitmap = noSurface, currentSrc = [], poster = []\<rparr>
       [] None None []"

definition canvasToDataURLChunked :: "host \<Rightarrow> node Options \<Rightarrow> surface \<Rightarrow> world \<Rightarrow> string result" where
  "canvasToDataURLChunked h options sourceCanvas w =
     (if \<not> has2d sourceCanvas then (Return (toDataURL h sourceCanvas), w)
      else
        let offscreen = OffscreenCanvas (offscreen2d h) (width sourceCanvas) (height sourceCanvas)
        in if \<not> has2d offscreen then (Return (toDataURL h sourceCanvas), w)
           else
             let (filled, w1) = stripLoop options sourceCanvas 0 offscreen w
             in if blobOk h
                then (Return (''data:image/png;base64,''
                               @ encode h (width filled) (height filled) (rows filled)), w1)
                else (Throw (OtherError ''convertToBlob''), w1))"

fun cloneCanvasElement :: "host \<Rightarrow> node Options \<Rightarrow> node \<Rightarrow> world \<Rightarrow> node result" where
  "cloneCanvasElement h options (TextNode i s) w = (Return (TextNode i s), w)"
| "cloneCanvasElement h options (Element p ks sh b a) w =
     (let testDataURL = toDataURL h (bitmap p)
      in if testDataURL = ''data:,''
         then (Return (domCloneNode (Element p ks sh b a) False), w)
         else
           let isLargeCanvas = (500000 < width (bitmap p) * height (bitmap p))
           in if \<not> isLargeCanvas \<or> \<not> offscreenSupported h
              then (Return (createImage (nid p) testDataURL), w)
              else tryCatch
                     (bind (canvasToDataURLChunked h options (bitmap p) w)
                        (\<lambda>dataURL w1. (Return (createImage (nid p) dataURL), w1)))
                     (\<lambda>e w1. (Return (createImage (nid p) (toDataURL h (bitmap p))), w1)))"

fun cloneVideoElement :: "host \<Rightarrow> node Options \<Rightarrow> node \<Rightarrow> world \<Rightarrow> node result" where
  "cloneVideoElement h options (TextNode i s) w = (Return (TextNode i s), w)"
| "cloneVideoElement h options (Element p ks sh b a) w =
     (if currentSrc p \<noteq> []
      then (Return (createImage (nid p) (toDataURL h (bitmap p))), w)
      else
        let w1 = w\<lparr>events := events w @ [Resolved (poster p)]\<rparr>
        in case resourceToDataURL h (poster p) of
             None \<Rightarrow> (Throw (OtherError (poster p)), w1)
           | Some dataURL \<Rightarrow> (Return (createImage (nid p) dataURL), w1))"

section \<open>Decoration\<close>

text \<open>
  A number of the code is \<open>NaN\<close>, an infinity (\<open>Infinity True\<close> is the negative one) or a
  finite number. Finite numbers are exact rationals: this is the arithmetic of the code as
  long as the decimals involved have at most 15 significant digits.

  \<open>parseFloat\<close> skips leading white space and reads the longest prefix that is a decimal
  literal: an optional sign, then \<open>Infinity\<close>, or digits with an optional fraction and an
  optional exponent. \<open>numberToString\<close> prints a finite number with at most one decimal
  digit, which is what the numbers printed here have.
\<close>

datatype number = NaN | Infinity bool | Finite rat

definition digitValue :: "char \<Rightarrow> nat" where
  "digitValue c = (case map_of (zip ''0123456789'' [0, 1, 2, 3, 4, 5, 6, 7, 8, 9]) c of
                     Some d \<Rightarrow> d | None \<Rightarrow> 0)"

definition digitsValue :: "string \<Rightarrow> nat" where
  "digitsValue ds = foldl (\<lambda>acc c. acc * 10 + digitValue c) 0 ds"

definition isWhiteSpace :: "char \<Rightarrow> bool" where
  "isWhiteSpace c =
     (c \<in> set [CHR 0x09, CHR 0x0A, CHR 0x0B, CHR 0x0C, CHR 0x0D, CHR 0x20, CHR 0xA0])"

text \<open>
  The exponent part at the start of a string: \<open>e\<close> or \<open>E\<close>, an optional sign and digits; 0
  when there is none.
\<close>

definition exponentOf :: "string \<Rightarrow> int" where
  "exponentOf s =
     (case s of
        [] \<Rightarrow> 0
      | c # cs \<Rightarrow>
          if c = CHR ''e'' \<or> c = CHR ''E''
          then (case cs of
                  [] \<Rightarrow> 0
                | d # ds \<Rightarrow>
                    if d = CHR ''-'' then - int (digitsValue (takeWhile isDigit ds))
                    else if d = CHR ''+'' then int (digitsValue (takeWhile isDigit ds))
                    else int (digitsValue (takeWhile isDigit cs)))
          else 0)"

definition scale :: "rat \<Rightarrow> int \<Rightarrow> rat" where
  "scale m e = (if 0 \<le> e then m * 10 ^ nat e else m / 10 ^ nat (- e))"

definition parseUnsigned :: "string \<Rightarrow> number" where
  "parseUnsigned s =
     (if take 8 s = ''Infinity'' then Infinity False
      else
        let ip = takeWhile isDigit s;
            rest = dropWhile isDigit s;
            point = (rest \<noteq> [] \<and> hd rest = CHR ''.'');
            fp = (if point then takeWhile isDigit (tl rest) else []);
            rest2 = (if point then dropWhile isDigit (tl rest) else rest)
        in if ip = [] \<and> fp = [] then NaN
           else Finite (scale (of_nat (digitsValue ip) + of_nat (digitsValue fp) / 10 ^ length fp)
                          (exponentOf rest2)))"

fun negate :: "number \<Rightarrow> number" where
  "negate NaN = NaN"
| "negate (Infinity negative) = Infinity (\<not> negative)"
| "negate (Finite q) = Finite (- q)"

definition parseFloat :: "string \<Rightarrow> number" where
  "parseFloat s =
     (case dropWhile isWhiteSpace s of
        [] \<Rightarrow> NaN
      | c # cs \<Rightarrow>
          if c = CHR ''-'' then negate (parseUnsigned cs)
          else if c = CHR ''+'' then parseUnsigned cs
          else parseUnsigned (c # cs))"

fun natToString :: "nat \<Rightarrow> string" where
  "natToString n =
     (if n < 10 then [''0123456789'' ! n]
      else natToString (n div 10) @ [''0123456789'' ! (n mod 10)])"

declare natToString.simps [simp del]

definition numberToString :: "number \<Rightarrow> string" where
  "numberToString v =
     (case v of
        NaN \<Rightarrow> ''NaN''
      | Infinity negative \<Rightarrow> (if negative then ''-Infinity'' else ''Infinity'')
      | Finite q \<Rightarrow>
          let tenths = nat \<lfloor>\<bar>q\<bar> * 10\<rfloor>
          in (if q < 0 then ''-'' else [])
             @ natToString (tenths div 10)
             @ (if tenths mod 10 = 0 then [] else CHR ''.'' # natToString (tenths mod 10)))"

definition endsWith :: "string \<Rightarrow> string \<Rightarrow> bool" where
  "endsWith s suffix = (length suffix \<le> length s \<and> drop (length s - length suffix) s = suffix)"

definition getPropertyValue :: "(string \<times> string \<times> string) list \<Rightarrow> string \<Rightarrow> string" where
  "getPropertyValue decls name = (case map_of decls name of Some (v, pr) \<Rightarrow> v | None \<Rightarrow> [])"

definition getPropertyPriority :: "(string \<times> string \<times> string) list \<Rightarrow> string \<Rightarrow> string" where
  "getPropertyPriority decls name = (case map_of decls name of Some (v, pr) \<Rightarrow> pr | None \<Rightarrow> [])"

text \<open>
  Values that the style system parses the same way in every host. A length in pixels is a
  number (an optional sign, digits, an optional fraction) followed by \<open>px\<close>; as a
  \<open>font-size\<close> it is accepted when it is not negative. The property \<open>d\<close> takes \<open>path(...)\<close>
  only with a quoted string inside. For every other value the parser of the host decides.
\<close>

definition cssNumber :: "string \<Rightarrow> rat option" where
  "cssNumber s =
     (let body = (case s of
                    [] \<Rightarrow> []
                  | c # cs \<Rightarrow> if c = CHR ''-'' \<or> c = CHR ''+'' then cs else s);
          ip = takeWhile isDigit body;
          rest = dropWhile isDigit body
      in if (rest = [] \<and> ip \<noteq> [])
            \<or> (rest \<noteq> [] \<and> hd rest = CHR ''.'' \<and> tl rest \<noteq> [] \<and> list_all isDigit (tl rest))
         then (case parseFloat s of Finite q \<Rightarrow> Some q | _ \<Rightarrow> None) else None)"

definition lengthPx :: "string \<Rightarrow> rat option" where
  "lengthPx v = (if endsWith v ''px'' then cssNumber (take (length v - 2) v) else None)"

definition isString :: "string \<Rightarrow> bool" where
  "isString s = (2 \<le> length s \<and> hd s = last s \<and> (hd s = CHR 0x22 \<or> hd s = CHR 0x27))"

definition parsesFor :: "host \<Rightarrow> string \<Rightarrow> string \<Rightarrow> bool" where
  "parsesFor h name v =
     (case (if name = ''font-size'' then lengthPx v else None) of
        Some q \<Rightarrow> 0 \<le> q
      | None \<Rightarrow>
          if name = ''d'' \<and> take 5 v = ''path('' \<and> endsWith v '')''
             \<and> \<not> isString (take (length v - 6) (drop 5 v))
          then False
          else cssParses h name v)"

text \<open>
  \<open>CSSStyleDeclaration.setProperty\<close>: nothing happens for a property that the style system
  does not support; the empty string removes the property; nothing happens for a priority
  other than the empty string and \<open>important\<close>, and for a value that does not parse;
  otherwise the declaration is set. Property names are in lower case, as the names of a
  computed style are, and a value is stored as given.
\<close>

definition setProperty ::
  "host \<Rightarrow> (string \<times> string \<times> string) list \<Rightarrow> string \<Rightarrow> string \<Rightarrow> string
   \<Rightarrow> (string \<times> string \<times> string) list" where
  "setProperty h decls name v pr =
     (if \<not> cssSupports h name then decls
      else if v = [] then AList.delete name decls
      else if pr \<noteq> [] \<and> toLowerCase pr \<noteq> ''important'' then decls
      else if \<not> parsesFor h name v then decls
      else AList.update name (v, pr) decls)"


text \<open>
  The value that the per-property path of \<open>cloneCSSStyle\<close> gives to property \<open>name\<close>, from
  the computed value \<open>value0\<close> of the source node.
\<close>

definition reducedFont :: "string \<Rightarrow> number" where
  "reducedFont v =
     (case parseFloat (take (length v - 2) v) of
        Finite q \<Rightarrow> Finite (of_int \<lfloor>q\<rfloor> - 1 / 10)
      | other \<Rightarrow> other)"

definition styleValue :: "node \<Rightarrow> node \<Rightarrow> string \<Rightarrow> string \<Rightarrow> string" where
  "styleValue nativeNode clonedNode name value0 =
     (let value1 = (if name = ''font-size'' \<and> endsWith value0 ''px''
                    then numberToString (reducedFont value0) @ ''px'' else value0);
          value2 = (if isInstanceOfElement nativeNode HTMLIFrameElement
                       \<and> name = ''display'' \<and> value1 = ''inline''
                    then ''block'' else value1)
      in case getAttribute clonedNode ''d'' of
           Some d \<Rightarrow> if name = ''d'' \<and> d \<noteq> [] then ''path('' @ d @ '')'' else value2
         | None \<Rightarrow> value2)"

fun cloneCSSStyle :: "host \<Rightarrow> node \<Rightarrow> node \<Rightarrow> node" where
  "cloneCSSStyle h (Element np nks nsh nb na) (Element cp cks csh cb ca) =
     (if hasCssText np
      then Element (cp\<lparr>style := setProperty h (computed np) ''transform-origin''
                                  (getPropertyValue (computed np) ''transform-origin'') []\<rparr>)
             cks csh cb ca
      else Element
             (cp\<lparr>style :=
                  foldl (\<lambda>st name.
                           setProperty h st name
                             (styleValue (Element np nks nsh nb na) (Element cp cks csh cb ca)
                                name (getPropertyValue (computed np) name))
                             (getPropertyPriority (computed np) name))
                    (style cp) (styleProperties h)\<rparr>)
             cks csh cb ca)"
| "cloneCSSStyle h nativeNode clonedNode = clonedNode"

fun currentValueOf :: "node \<Rightarrow> string" where
  "currentValueOf (TextNode _ _) = []"
| "currentValueOf (Element p _ _ _ _) = currentValue p"

fun setInnerText :: "node \<Rightarrow> string \<Rightarrow> node" where
  "setInnerText (TextNode i s) v = TextNode i s"
| "setInnerText (Element p ks sh b a) v = Element p (if v = [] then [] else [TextNode 0 v]) sh b a"

definition cloneInputValue :: "node \<Rightarrow> node \<Rightarrow> node" where
  "cloneInputValue nativeNode clonedNode =
     (let c1 = (if isInstanceOfElement nativeNode HTMLTextAreaElement
                then setInnerText clonedNode (currentValueOf nativeNode) else clonedNode)
      in if isInstanceOfElement nativeNode HTMLInputElement
         then setAttribute c1 ''value'' (currentValueOf nativeNode) else c1)"

fun selectOption :: "string \<Rightarrow> node list \<Rightarrow> node list" where
  "selectOption v [] = []"
| "selectOption v (k # ks) =
     (if isElement k \<and> getAttribute k ''value'' = Some v
      then setAttribute k ''selected'' [] # ks
      else k # selectOption v ks)"

fun cloneSelectValue :: "node \<Rightarrow> node \<Rightarrow> node" where
  "cloneSelectValue nativeNode (TextNode i s) = TextNode i s"
| "cloneSelectValue nativeNode (Element p ks sh b a) =
     (if isInstanceOfElement nativeNode HTMLSelectElement
      then Element p (selectOption (currentValueOf nativeNode) ks) sh b a
      else Element p ks sh b a)"

text \<open>
  \<open>clonePseudoElements\<close> is an external collaborator that is not under src; the model
  leaves it out.
\<close>

definition decorate :: "host \<Rightarrow> node \<Rightarrow> node \<Rightarrow> node" where
  "decorate h nativeNode clonedNode =
     (if isElement clonedNode
      then cloneSelectValue nativeNode (cloneInputValue nativeNode (cloneCSSStyle h nativeNode clonedNode))
      else clonedNode)"

section \<open>Tree cloner\<close>

text \<open>
  The recursion of the cloner is not structural: symbol resolution clones definitions
  found in the document. The functions take a fuel argument that bounds the depth of the
  calls of \<open>cloneNode\<close>; with too little fuel the outcome is \<open>OutOfFuel\<close>, which no handler
  catches. A symbol reference that \<open>parseSelector\<close> does not read is outside the model.
\<close>

fun nodeMs :: "node \<Rightarrow> nat" where
  "nodeMs (TextNode _ _) = 0"
| "nodeMs (Element p _ _ _ _) = ms p"

definition spend :: "node \<Rightarrow> world \<Rightarrow> world" where
  "spend n w = w\<lparr>now := now w + int (nodeMs n)\<rparr>"

definition excluded :: "node Options \<Rightarrow> node \<Rightarrow> bool \<Rightarrow> bool" where
  "excluded options n isRoot =
     (\<not> isRoot \<and> (case filter_opt options of Some accept \<Rightarrow> \<not> accept n | None \<Rightarrow> False))"

fun contentBody :: "node \<Rightarrow> node option" where
  "contentBody (TextNode _ _) = None"
| "contentBody (Element p ks sh b a) = b"

text \<open>The children that \<open>cloneChildren\<close> walks.\<close>

fun childrenToClone :: "node \<Rightarrow> node list" where
  "childrenToClone (TextNode _ _) = []"
| "childrenToClone (Element p ks sh b a) =
     (if isSlotElement (Element p ks sh b a) then a
      else if iface p = HTMLIFrameElement \<and> b \<noteq> None then childNodes (the b)
      else (case sh of Some shadowChildren \<Rightarrow> shadowChildren | None \<Rightarrow> ks))"

text \<open>
  \<open>processedDefs[id]\<close> on a plain object: the entry stored under the key, or a property
  that every object inherits.
\<close>

definition objectPrototypeKeys :: "string list" where
  "objectPrototypeKeys =
     [''constructor'', ''hasOwnProperty'', ''isPrototypeOf'', ''propertyIsEnumerable'',
      ''toLocaleString'', ''toString'', ''valueOf'', ''__proto__'', ''__defineGetter__'',
      ''__defineSetter__'', ''__lookupGetter__'', ''__lookupSetter__'']"

definition hasProperty :: "(string \<times> 'a) list \<Rightarrow> string \<Rightarrow> bool" where
  "hasProperty obj key = (map_of obj key \<noteq> None \<or> key \<in> set objectPrototypeKeys)"

text \<open>The data of an element of the HTML namespace with the given tag name and nothing else.\<close>

definition plainProps :: "string \<Rightarrow> props" where
  "plainProps tag =
     \<lparr>nid = 0, ms = 0, localName = toLowerCase tag, htmlNamespace = True,
      iface = OtherElement, attributes = [], style = [],
      hasCssText = False, computed = [], currentValue = [], bitmap = noSurface,
      currentSrc = [], poster = []\<rparr>"

text \<open>The hidden container that \<open>ensureSVGSymbols\<close> appends, holding the cloned definitions.\<close>

definition symbolContainer :: "node list \<Rightarrow> node" where
  "symbolContainer nodes =
     Element ((plainProps ''SVG'')
                \<lparr>attributes := [(''xmlns'', ''http://www.w3.org/1999/xhtml'')],
                 style := [(''position'', ''absolute'', []), (''width'', ''0'', []),
                           (''height'', ''0'', []), (''overflow'', ''hidden'', []),
                           (''display'', ''none'', [])]\<rparr>)
       [Element (plainProps ''DEFS'') nodes None None []] None None []"

function cloneNode :: "nat \<Rightarrow> host \<Rightarrow> node Options \<Rightarrow> node \<Rightarrow> bool \<Rightarrow> world \<Rightarrow> node option result"
and cloneSingleNode :: "nat \<Rightarrow> host \<Rightarrow> node Options \<Rightarrow> node \<Rightarrow> world \<Rightarrow> node result"
and cloneIFrameElement :: "nat \<Rightarrow> host \<Rightarrow> node Options \<Rightarrow> node \<Rightarrow> world \<Rightarrow> node result"
and cloneChildren :: "nat \<Rightarrow> host \<Rightarrow> node Options \<Rightarrow> node \<Rightarrow> node \<Rightarrow> world \<Rightarrow> node result"
and cloneChildrenLoop :: "nat \<Rightarrow> host \<Rightarrow> node Options \<Rightarrow> node list \<Rightarrow> node \<Rightarrow> world \<Rightarrow> node result"
and ensureSVGSymbols :: "nat \<Rightarrow> host \<Rightarrow> node Options \<Rightarrow> node \<Rightarrow> world \<Rightarrow> node result"
and ensureSVGSymbolsLoop ::
  "nat \<Rightarrow> host \<Rightarrow> node Options \<Rightarrow> node \<Rightarrow> node list \<Rightarrow> (string \<times> node) list \<Rightarrow> world
   \<Rightarrow> (string \<times> node) list result"
where
  "cloneNode 0 h options n isRoot w =
     (if excluded options n isRoot then (Return None, w) else (OutOfFuel, w))"
| "cloneNode (Suc fuel) h options n isRoot w =
     (if excluded options n isRoot then (Return None, w)
      else
        bind (cloneSingleNode fuel h options n (spend n w)) (\<lambda>clonedNode w1.
        bind (cloneChildren fuel h options n clonedNode w1) (\<lambda>clonedNode w2.
        bind (ensureSVGSymbols fuel h options (decorate h n clonedNode) w2) (\<lambda>clonedNode w3.
          (Return (Some clonedNode), w3)))))"
| "cloneSingleNode fuel h options n w =
     (if isInstanceOfElement n HTMLCanvasElement then cloneCanvasElement h options n w
      else if isInstanceOfElement n HTMLVideoElement then cloneVideoElement h options n w
      else if isInstanceOfElement n HTMLIFrameElement then cloneIFrameElement fuel h options n w
      else (Return (domCloneNode n (isSVGElement n)), w))"
| "cloneIFrameElement fuel h options iframe w =
     (case contentBody iframe of
        Some body \<Rightarrow>
          tryCatch
            (bind (cloneNode fuel h options body True w) (\<lambda>cloned w1.
               case cloned of
                 Some c \<Rightarrow> (Return c, w1)
               | None \<Rightarrow> (Throw (OtherError ''null''), w1)))
            (\<lambda>e w1. (Return (domCloneNode iframe False), w1))
      | None \<Rightarrow> (Return (domCloneNode iframe False), w))"
| "cloneChildren fuel h options nativeNode clonedNode w =
     (if isSVGElement clonedNode then (Return clonedNode, w)
      else
        let children = childrenToClone nativeNode
        in if children = [] \<or> isInstanceOfElement nativeNode HTMLVideoElement
           then (Return clonedNode, w)
           else cloneChildrenLoop fuel h options children clonedNode w)"
| "cloneChildrenLoop fuel h options [] clonedNode w = (Return clonedNode, w)"
| "cloneChildrenLoop fuel h options (child # rest) clonedNode w =
     bind (maybeYieldToMain options w) (\<lambda>_ w1.
     bind (cloneNode fuel h options child False w1) (\<lambda>clonedChild w2.
       cloneChildrenLoop fuel h options rest
         (case clonedChild of Some c \<Rightarrow> appendChild clonedNode c | None \<Rightarrow> clonedNode) w2))"
| "ensureSVGSymbols fuel h options clone w =
     (let uses = (if isElement clone then querySelectorAll clone (TypeSelector ''use'') else [])
      in if uses = [] then (Return clone, w)
         else
           bind (ensureSVGSymbolsLoop fuel h options clone uses [] w) (\<lambda>processedDefs w1.
             let nodes = map snd processedDefs
             in if nodes \<noteq> [] then (Return (appendChild clone (symbolContainer nodes)), w1)
                else (Return clone, w1)))"
| "ensureSVGSymbolsLoop fuel h options clone [] processedDefs w = (Return processedDefs, w)"
| "ensureSVGSymbolsLoop fuel h options clone (use # rest) processedDefs w =
     bind (maybeYieldToMain options w) (\<lambda>_ w1.
       case getAttribute use ''xlink:href'' of
         None \<Rightarrow> ensureSVGSymbolsLoop fuel h options clone rest processedDefs w1
       | Some ref \<Rightarrow>
           if ref = [] then ensureSVGSymbolsLoop fuel h options clone rest processedDefs w1
           else
             (case parseSelector ref of
                None \<Rightarrow> (Unmodelled, w1)
              | Some sel \<Rightarrow>
                  (case documentQuerySelector h sel of
                     None \<Rightarrow> ensureSVGSymbolsLoop fuel h options clone rest processedDefs w1
                   | Some definition \<Rightarrow>
                       if querySelector clone sel = None \<and> \<not> hasProperty processedDefs ref
                       then
                         bind (cloneNode fuel h options definition True w1) (\<lambda>cloned w2.
                           case cloned of
                             Some c \<Rightarrow>
                               ensureSVGSymbolsLoop fuel h options clone rest
                                 (processedDefs @ [(ref, c)]) w2
                           | None \<Rightarrow> (Throw (OtherError ''null''), w2))
                       else ensureSVGSymbolsLoop fuel h options clone rest processedDefs w1)))"
  by pat_completeness auto
termination
  by (relation "measures
        [case_sum
           (case_sum (\<lambda>(f, _). 3 * f) (case_sum (\<lambda>(f, _). 3 * f + 2) (\<lambda>(f, _). 3 * f + 1)))
           (case_sum (case_sum (\<lambda>(f, _). 3 * f + 2) (\<lambda>(f, _). 3 * f + 1))
                     (case_sum (\<lambda>(f, _). 3 * f + 2) (\<lambda>(f, _). 3 * f + 1))),
         case_sum
           (case_sum (\<lambda>_. 0) (case_sum (\<lambda>_. 0) (\<lambda>_. 0)))
           (case_sum (case_sum (\<lambda>_. 0) (\<lambda>(f, h, options, children, _). length children))
                     (case_sum (\<lambda>_. 0) (\<lambda>(f, h, options, clone, uses, _). length uses)))]")
     auto

declare cloneSingleNode.simps [simp del] cloneIFrameElement.simps [simp del]
  cloneChildren.simps [simp del] ensureSVGSymbols.simps [simp del]

section \<open>Resource embedder\<close>

text \<open>
  Modelled from the spec: \<open>isDataUrl\<close> (not under src) recognises an inline reference, a
  URL that starts with \<open>data:\<close>.
\<close>

definition isDataUrl :: "string \<Rightarrow> bool" where
  "isDataUrl url = (take 5 url = ''data:'')"

text \<open>
  Modelled from the spec: \<open>embedResources\<close> (not under src) locates every external-resource
  reference \<open>url(...)\<close> in a declaration text, resolves each through the external resource
  resolver and substitutes the resolved inline form, keeping the rest of the text. A
  reference that is already inline is kept as it is. The reference may be written with
  single or double quotes.
\<close>

definition quoted :: "string \<Rightarrow> bool" where
  "quoted s = (2 \<le> length s \<and> hd s = last s \<and> (hd s = CHR 0x22 \<or> hd s = CHR 0x27))"

definition unquote :: "string \<Rightarrow> string" where
  "unquote s = (if quoted s then butlast (tl s) else s)"

definition quoteOf :: "string \<Rightarrow> string" where
  "quoteOf s = (if quoted s then [hd s] else [])"

text \<open>A text that starts with a reference \<open>url(...)\<close>: what is between the parentheses, and the text after.\<close>

definition splitUrl :: "string \<Rightarrow> (string \<times> string) option" where
  "splitUrl s =
     (if take 4 s = ''url('' \<and> CHR '')'' \<in> set (drop 4 s)
      then Some (takeWhile (\<lambda>x. x \<noteq> CHR '')'') (drop 4 s),
                 tl (dropWhile (\<lambda>x. x \<noteq> CHR '')'') (drop 4 s)))
      else None)"

lemma splitUrl_shorter: "splitUrl s = Some (inner, rest) \<Longrightarrow> length rest < length s"
proof -
  assume a: "splitUrl s = Some (inner, rest)"
  then have r: "rest = tl (dropWhile (\<lambda>x. x \<noteq> CHR '')'') (drop 4 s))" and t: "take 4 s = ''url(''"
    by (auto simp: splitUrl_def split: if_splits)
  have "length (dropWhile (\<lambda>x. x \<noteq> CHR '')'') (drop 4 s)) \<le> length (drop 4 s)"
    by (rule length_dropWhile_le)
  moreover have "4 \<le> length s"
    using t by (cases "4 \<le> length s") auto
  ultimately show ?thesis
    using r by simp
qed

function embedResources :: "host \<Rightarrow> string \<Rightarrow> world \<Rightarrow> string result" where
  "embedResources h cssText w =
     (case splitUrl cssText of
        Some (inner, rest) \<Rightarrow>
          if isDataUrl (unquote inner)
          then bind (embedResources h rest w) (\<lambda>r w1.
                 (Return (''url('' @ inner @ '')'' @ r), w1))
          else
            (let w1 = w\<lparr>events := events w @ [Resolved (unquote inner)]\<rparr>
             in case resourceToDataURL h (unquote inner) of
                  None \<Rightarrow> (Throw (OtherError (unquote inner)), w1)
                | Some dataURL \<Rightarrow>
                    bind (embedResources h rest w1) (\<lambda>r w2.
                      (Return (''url('' @ quoteOf inner @ dataURL @ quoteOf inner @ '')'' @ r),
                       w2)))
      | None \<Rightarrow>
          (case cssText of
             [] \<Rightarrow> (Return [], w)
           | c # cs \<Rightarrow> bind (embedResources h cs w) (\<lambda>r w1. (Return (c # r), w1))))"
  by pat_completeness auto
termination
  by (relation "measure (\<lambda>(h, cssText, w). length cssText)") (auto simp: splitUrl_shorter)

declare embedResources.simps [simp del]

fun embedProp :: "host \<Rightarrow> string \<Rightarrow> node \<Rightarrow> node Options \<Rightarrow> world \<Rightarrow> (bool \<times> node) result" where
  "embedProp h propName (TextNode i s) options w = (Return (False, TextNode i s), w)"
| "embedProp h propName (Element p ks sh b a) options w =
     (let propValue = getPropertyValue (style p) propName
      in if propValue \<noteq> []
         then bind (embedResources h propValue w) (\<lambda>cssString w1.
                (Return (True,
                   Element (p\<lparr>style := setProperty h (style p) propName cssString
                                          (getPropertyPriority (style p) propName)\<rparr>)
                     ks sh b a), w1))
         else (Return (False, Element p ks sh b a), w))"

text \<open>\<open>embedProp(a) || embedProp(b) || ...\<close>: the first property with a value wins.\<close>

fun embedFirst :: "host \<Rightarrow> string list \<Rightarrow> node \<Rightarrow> node Options \<Rightarrow> world \<Rightarrow> node result" where
  "embedFirst h [] n options w = (Return n, w)"
| "embedFirst h (propName # others) n options w =
     bind (embedProp h propName n options w) (\<lambda>(embedded, n1) w1.
       if embedded then (Return n1, w1) else embedFirst h others n1 options w1)"

definition embedBackground :: "host \<Rightarrow> node \<Rightarrow> node Options \<Rightarrow> world \<Rightarrow> node result" where
  "embedBackground h clonedNode options w =
     bind (embedFirst h [''background'', ''background-image''] clonedNode options w) (\<lambda>n1 w1.
       embedFirst h [''mask'', ''-webkit-mask'', ''mask-image'', ''-webkit-mask-image'']
         n1 options w1)"

definition attributeOr :: "node \<Rightarrow> string \<Rightarrow> string" where
  "attributeOr n name = (case getAttribute n name of Some v \<Rightarrow> v | None \<Rightarrow> [])"

definition embedImageNode :: "host \<Rightarrow> node \<Rightarrow> node Options \<Rightarrow> world \<Rightarrow> node result" where
  "embedImageNode h clonedNode options w =
     (let isImageElement = isInstanceOfElement clonedNode HTMLImageElement
      in if \<not> (isImageElement \<and> \<not> isDataUrl (attributeOr clonedNode ''src''))
            \<and> \<not> (isInstanceOfElement clonedNode SVGImageElement
                  \<and> \<not> isDataUrl (attributeOr clonedNode ''href''))
         then (Return clonedNode, w)
         else
           let url = (if isImageElement then attributeOr clonedNode ''src''
                      else attributeOr clonedNode ''href'');
               w1 = w\<lparr>events := events w @ [Resolved url]\<rparr>
           in case resourceToDataURL h url of
                None \<Rightarrow> (Throw (OtherError url), w1)
              | Some dataURL \<Rightarrow>
                  let n1 = (if getAttribute clonedNode ''loading'' = Some ''lazy''
                            then setAttribute clonedNode ''loading'' ''eager'' else clonedNode);
                      n2 = (if isImageElement
                            then setAttribute (setAttribute n1 ''srcset'' []) ''src'' dataURL
                            else setAttribute n1 ''href'' dataURL)
                  in if imageLoads h dataURL \<or> onImageErrorHandler options
                     then (Return n2, w1)
                     else (Throw (OtherError dataURL), w1))"

fun withChildNodes :: "node \<Rightarrow> node list \<Rightarrow> node" where
  "withChildNodes (TextNode i s) ks = TextNode i s"
| "withChildNodes (Element p _ sh b a) ks = Element p ks sh b a"

function embedImages :: "host \<Rightarrow> node \<Rightarrow> node Options \<Rightarrow> world \<Rightarrow> node result"
and embedChildren :: "host \<Rightarrow> node list \<Rightarrow> node Options \<Rightarrow> world \<Rightarrow> node list result"
where
  "embedImages h (TextNode i s) options w = (Return (TextNode i s), w)"
| "embedImages h (Element p ks sh b a) options w =
     bind (embedBackground h (Element p ks sh b a) options w) (\<lambda>n1 w1.
     bind (embedImageNode h n1 options w1) (\<lambda>n2 w2.
     bind (embedChildren h ks options w2) (\<lambda>children w3.
       (Return (withChildNodes n2 children), w3))))"
| "embedChildren h [] options w = (Return [], w)"
| "embedChildren h (child # rest) options w =
     bind (maybeYieldToMain_embed options w) (\<lambda>_ w1.
     bind (embedImages h child options w1) (\<lambda>child1 w2.
     bind (embedChildren h rest options w2) (\<lambda>rest1 w3.
       (Return (child1 # rest1), w3))))"
  by pat_completeness auto
termination
  by (relation "measure (case_sum (\<lambda>(h, n, options, w). size n)
                                  (\<lambda>(h, ks, options, w). size_list size ks))") auto

section \<open>Capture orchestrator\<close>

definition estimateDOMComplexity :: "node \<Rightarrow> nat" where
  "estimateDOMComplexity n = length (querySelectorAll n Universal) + 1"

text \<open>\<open>Math.floor(domNodes * 2.5)\<close> on natural numbers.\<close>

definition estimatedTotalOps :: "nat \<Rightarrow> int" where
  "estimatedTotalOps domNodes = int ((domNodes * 5) div 2)"

definition initializeOptions :: "node \<Rightarrow> node Options \<Rightarrow> world \<Rightarrow> node Options \<times> world" where
  "initializeOptions n options w =
     (if nonBlocking options \<or> truthy (maxNodes options) \<or> truthy (timeout options)
         \<or> onProgress options
      then (options\<lparr>startTime := Some (now w)\<rparr>,
            w\<lparr>ctx := Some \<lparr>nodeCount = 0, lastYieldTime = Some (now w),
                           totalNodes = Some (estimatedTotalOps (estimateDOMComplexity n))\<rparr>\<rparr>)
      else (options, w))"

definition checkDOMComplexity :: "node \<Rightarrow> node Options \<Rightarrow> error option" where
  "checkDOMComplexity n options =
     (if truthy (maxNodes options) \<and> the (maxNodes options) < int (estimateDOMComplexity n)
      then Some (CaptureAbortedError MaxNodes) else None)"

text \<open>
  \<open>toSvg\<close> up to the hand-off to rendering: its result here is the decorated clone with
  its resources embedded. \<open>embedWebFonts\<close> is not under src and is left out.
\<close>

definition toSvg :: "nat \<Rightarrow> host \<Rightarrow> node \<Rightarrow> node Options \<Rightarrow> world \<Rightarrow> node result" where
  "toSvg fuel h n options w =
     (let (opts, w1) = initializeOptions n options w
      in case checkDOMComplexity n opts of
           Some e \<Rightarrow> (Throw e, w1)
         | None \<Rightarrow>
             bind (cloneNode fuel h opts n True w1) (\<lambda>cloned w2.
               case cloned of
                 Some clonedNode \<Rightarrow> embedImages h clonedNode opts w2
               | None \<Rightarrow> (Throw (OtherError ''null''), w2)))"

text \<open>A host and elements to build concrete documents with.\<close>

definition plainHost :: host where
  "plainHost = \<lparr>offscreenSupported = True, offscreen2d = True, blobOk = True,
     encode = (\<lambda>w h rs. ''png''), resourceToDataURL = (\<lambda>url. Some (''data:'' @ url)),
     imageLoads = (\<lambda>url. True), styleProperties = [''font-size'', ''display''],
     document = [], cssSupports = (\<lambda>name. True), cssParses = (\<lambda>name v. True)\<rparr>"

definition el :: "nat \<Rightarrow> string \<Rightarrow> node list \<Rightarrow> node" where
  "el i tag ks = Element ((plainProps tag)\<lparr>nid := i\<rparr>) ks None None []"

fun styleOf :: "node \<Rightarrow> (string \<times> string \<times> string) list" where
  "styleOf (TextNode _ _) = []"
| "styleOf (Element p _ _ _ _) = style p"

section \<open>Trees that are already embedded\<close>

text \<open>
  A declaration text in which every reference \<open>url(...)\<close> is inline, and a tree in which
  every embeddable style declaration and every image source is inline.
\<close>

function inlineOnly :: "string \<Rightarrow> bool" where
  "inlineOnly cssText =
     (case splitUrl cssText of
        Some (inner, rest) \<Rightarrow> isDataUrl (unquote inner) \<and> inlineOnly rest
      | None \<Rightarrow> (case cssText of [] \<Rightarrow> True | c # cs \<Rightarrow> inlineOnly cs))"
  by pat_completeness auto
termination
  by (relation "measure length") (auto simp: splitUrl_shorter)

declare inlineOnly.simps [simp del]

definition embeddableProps :: "string list" where
  "embeddableProps = [''background'', ''background-image'', ''mask'', ''-webkit-mask'',
                      ''mask-image'', ''-webkit-mask-image'']"

fun fullyEmbedded :: "node \<Rightarrow> bool" where
  "fullyEmbedded (TextNode i s) = True"
| "fullyEmbedded (Element p ks sh b a) =
     (list_all (\<lambda>name. inlineOnly (getPropertyValue (style p) name)) embeddableProps
      \<and> (if iface p = HTMLImageElement then isDataUrl (attributeOr (Element p ks sh b a) ''src'')
         else True)
      \<and> (if iface p = SVGImageElement then isDataUrl (attributeOr (Element p ks sh b a) ''href'')
         else True)
      \<and> list_all fullyEmbedded ks)"

text \<open>The URLs handed to the external resource resolver, in order.\<close>

fun resolutions :: "event list \<Rightarrow> string list" where
  "resolutions [] = []"
| "resolutions (Resolved url # es) = url # resolutions es"
| "resolutions (e # es) = resolutions es"

section \<open>Properties of a whole traversal\<close>

text \<open>
  An outcome that is an abort signal of the governor.
\<close>

fun isAbort :: "'a outcome \<Rightarrow> bool" where
  "isAbort (Throw (CaptureAbortedError r)) = True"
| "isAbort _ = False"




text \<open>A state in which no capture has started yet.\<close>

definition freshWorld :: world where
  "freshWorld = \<lparr>ctx = None, now = 1000, yieldDelay = 0, events = []\<rparr>"





section \<open>Filtering\<close>

text \<open>
  The body of the nested document of a frame, when the document is accessible; the nodes
  that \<open>cloneSingleNode\<close> copies with all their descendants (an SVG element that is not a
  canvas, a video or a frame); and a \<open>use\<close> element, as \<open>querySelectorAll('use')\<close> finds it.
\<close>

fun nestedBody :: "node \<Rightarrow> node option" where
  "nestedBody (TextNode _ _) = None"
| "nestedBody (Element p ks sh b a) = (if iface p = HTMLIFrameElement then b else None)"

definition copiesDeep :: "node \<Rightarrow> bool" where
  "copiesDeep n =
     (isSVGElement n \<and> \<not> isInstanceOfElement n HTMLCanvasElement
      \<and> \<not> isInstanceOfElement n HTMLVideoElement \<and> \<not> isInstanceOfElement n HTMLIFrameElement)"

definition isUse :: "node \<Rightarrow> bool" where
  "isUse n = matches (TypeSelector ''use'') n"

lemma childrenToClone_smaller: "k \<in> set (childrenToClone n) \<Longrightarrow> size k < size n"
proof (cases n)
  case (TextNode i s)
  assume "k \<in> set (childrenToClone n)"
  then show ?thesis using TextNode by simp
next
  case (Element p ks sh b a)
  assume k: "k \<in> set (childrenToClone n)"
  have l: "x \<in> set xs \<Longrightarrow> size x < Suc (size_list size xs)" for x :: node and xs
    by (induction xs) auto
  show ?thesis
  proof (cases "isSlotElement n")
    case True
    then show ?thesis using k Element l [of k a] by simp
  next
    case slot: False
    show ?thesis
    proof (cases "iface p = HTMLIFrameElement \<and> b \<noteq> None")
      case True
      then obtain body where b: "b = Some body" by auto
      have "k \<in> set (childNodes body)" using k Element slot True b by simp
      then have "size k < size body"
      proof (cases body)
        case (Element bp bks bsh bb ba)
        assume "k \<in> set (childNodes body)"
        then show ?thesis using Element l [of k bks] by simp
      qed simp
      then show ?thesis using Element b by simp
    next
      case False
      then show ?thesis
        using k Element slot l [of k ks] l [of k "the sh"]
        by (cases sh) auto
    qed
  qed
qed

text \<open>
  The calls of \<open>cloneNode\<close> that the cloning of a node \<open>n\<close> makes on other nodes and that are
  not answered with \<open>null\<close>. The body of a nested document is cloned as a root, so the
  filter is not asked about it. The loop of \<open>cloneChildren\<close> runs over the children of \<open>n\<close>
  unless \<open>n\<close> is copied with its descendants or is a video; of these, \<open>loopChildren\<close> leaves
  out the children of the body of a frame when the cloning of the body has walked the same
  children already, so that no node is listed twice.
\<close>

definition walkedSame :: "node \<Rightarrow> bool" where
  "walkedSame b =
     (\<not> copiesDeep b \<and> \<not> isInstanceOfElement b HTMLVideoElement \<and> nestedBody b = None
      \<and> childrenToClone b = childNodes b)"

definition loopChildren :: "node \<Rightarrow> node list" where
  "loopChildren n =
     (if copiesDeep n \<or> isInstanceOfElement n HTMLVideoElement then []
      else (case nestedBody n of
              Some b \<Rightarrow> if walkedSame b \<and> childrenToClone n = childNodes b then []
                        else childrenToClone n
            | None \<Rightarrow> childrenToClone n))"

definition parts :: "node Options \<Rightarrow> node \<Rightarrow> node list" where
  "parts options n =
     (case nestedBody n of Some b \<Rightarrow> [b] | None \<Rightarrow> [])
     @ filter (\<lambda>k. \<not> excluded options k False) (loopChildren n)"

lemma parts_smaller: "k \<in> set (parts options n) \<Longrightarrow> size k < size n"
proof -
  assume k: "k \<in> set (parts options n)"
  have "size b < size n" if "nestedBody n = Some b" for b
    using that by (cases n) (auto split: if_splits)
  moreover have "size j < size n" if "j \<in> set (loopChildren n)" for j
    using that childrenToClone_smaller [of j n]
    by (auto simp: loopChildren_def split: if_splits option.splits)
  ultimately show ?thesis
    using k by (auto simp: parts_def split: option.splits)
qed

text \<open>
  The nodes of the source on which a traversal from \<open>n\<close> runs \<open>cloneNode\<close> without getting
  \<open>null\<close>: \<open>n\<close> itself (the root, or a node the filter accepted), and the nodes visited from
  each of its parts. These are the nodes that the walk reaches through accepted nodes only.
  The nodes of the source that a traversal copies are the visited nodes, each with all its
  descendants when it is copied deep.
\<close>

function visited :: "node Options \<Rightarrow> node \<Rightarrow> node list" where
  "visited options n = n # concat (map (visited options) (parts options n))"
  by pat_completeness auto
termination
  by (relation "measure (\<lambda>(options, n). size n)") (auto simp: parts_smaller)

declare visited.simps [simp del]

definition own :: "node \<Rightarrow> node list" where
  "own n = (if copiesDeep n then subtree n else [n])"

definition copied :: "node Options \<Rightarrow> node \<Rightarrow> node list" where
  "copied options n = concat (map own (visited options n))"

definition copiedIds :: "node Options \<Rightarrow> node \<Rightarrow> nat list" where
  "copiedIds options n = map nodeId (copied options n)"

text \<open>
  The source tree without the nodes that the filter rejects where the walk asks it: below
  a node that is not copied deep, the children, the children of the shadow root and the
  assigned nodes that the filter rejects are left out, each with its subtree. The body of a
  nested document is left as it is.
\<close>

lemma in_list_smaller: "x \<in> set xs \<Longrightarrow> size x < Suc (size_list size xs)"
  for x :: node
  by (induction xs) auto

function prune :: "node Options \<Rightarrow> node \<Rightarrow> node" where
  "prune options (TextNode i s) = TextNode i s"
| "prune options (Element p ks sh b a) =
     (if copiesDeep (Element p ks sh b a) then Element p ks sh b a
      else Element p
             (map (prune options) (filter (\<lambda>k. \<not> excluded options k False) ks))
             (map_option
                (\<lambda>shadowChildren.
                   map (prune options) (filter (\<lambda>k. \<not> excluded options k False) shadowChildren))
                sh)
             b
             (map (prune options) (filter (\<lambda>k. \<not> excluded options k False) a)))"
  by pat_completeness auto
termination
proof (relation "measure (\<lambda>(options, n). size n)", goal_cases)
  case 1
  show ?case by simp
next
  case (2 options p ks sh b a x)
  then show ?case using in_list_smaller [of x ks] by simp
next
  case (3 options p ks sh b a shadowChildren x)
  then show ?case using in_list_smaller [of x shadowChildren] by simp
next
  case (4 options p ks sh b a x)
  then show ?case using in_list_smaller [of x a] by simp
qed

text \<open>
  A \<open>use\<close> element whose reference symbol resolution follows into the document: its
  \<open>xlink:href\<close> attribute is not empty and finds an element of the document (or is not a
  selector that the model reads).
\<close>

definition resolves :: "host \<Rightarrow> node \<Rightarrow> bool" where
  "resolves h u =
     (isUse u
      \<and> (case getAttribute u ''xlink:href'' of
            None \<Rightarrow> False
          | Some ref \<Rightarrow>
              ref \<noteq> []
              \<and> (case parseSelector ref of
                    None \<Rightarrow> True
                  | Some sel \<Rightarrow> documentQuerySelector h sel \<noteq> None)))"

text \<open>
  A clone all of whose nodes come from the given source nodes or are made by the cloner
  (\<open>nid\<close> 0), and that has no \<open>use\<close> element whose reference resolves.
\<close>

fun cloneOf :: "host \<Rightarrow> nat set \<Rightarrow> node \<Rightarrow> bool" where
  "cloneOf h S (TextNode i s) = (i = 0 \<or> i \<in> S)"
| "cloneOf h S (Element p ks sh b a) =
     ((nid p = 0 \<or> nid p \<in> S) \<and> \<not> resolves h (Element p ks sh b a)
      \<and> list_all (cloneOf h S) ks)"

text \<open>A call that gives an answer of the program: a value or an error.\<close>

definition answers :: "'a result \<Rightarrow> bool" where
  "answers r = (case fst r of Return a \<Rightarrow> True | Throw e \<Rightarrow> True | _ \<Rightarrow> False)"






text \<open>Documents for the examples: a frame, a slow node.\<close>

definition frameBody :: node where
  "frameBody = Element ((plainProps ''BODY'')\<lparr>nid := 3\<rparr>) [] (Some [el 4 ''SPAN'' []]) None []"

definition frameElement :: "nat \<Rightarrow> node option \<Rightarrow> node" where
  "frameElement cost body =
     Element ((plainProps ''IFRAME'')\<lparr>nid := 2, ms := cost, iface := HTMLIFrameElement\<rparr>)
       [] None body []"

definition frameDocument :: "nat \<Rightarrow> node" where
  "frameDocument cost = el 1 ''DIV'' [frameElement cost (Some frameBody)]"

definition slowDocument :: node where
  "slowDocument = el 1 ''DIV'' [Element ((plainProps ''P'')\<lparr>nid := 2, ms := 100\<rparr>) [] None None []]"

section \<open>Properties of the governor\<close>

text \<open>
  C6. \<open>checkLimits\<close> raises \<open>MaxNodes\<close> exactly when a node cap is configured (a non-zero
  \<open>maxNodes\<close>, with a traversal context) and the processed-node counter has reached it; it
  raises \<open>Timeout\<close> exactly when a timeout is configured (a non-zero \<open>timeout\<close>, with the
  recorded start time), the time elapsed since the start has reached it and the node-cap
  condition does not hold; when both conditions hold it raises \<open>MaxNodes\<close>, the check made
  first.
\<close>

theorem checkLimits_raises:
  "(checkLimits options w = Some (CaptureAbortedError MaxNodes)) = nodeCapReached options w
   \<and> (checkLimits options w = Some (CaptureAbortedError Timeout))
        = (timeCapReached options w \<and> \<not> nodeCapReached options w)
   \<and> (nodeCapReached options w \<and> timeCapReached options w
        \<longrightarrow> checkLimits options w = Some (CaptureAbortedError MaxNodes))
   \<and> (checkLimits options w = None)
        = (\<not> nodeCapReached options w \<and> \<not> timeCapReached options w)"
  unfolding nodeCapReached_def timeCapReached_def checkLimits_def truthy_def
  by (auto split: option.splits)

theorem checkLimits_raises_witness:
  "nodeCapReached ((noOptions :: unit Options)\<lparr>maxNodes := Some 3, timeout := Some 10, startTime := Some 1000\<rparr>)
     \<lparr>ctx = Some \<lparr>nodeCount = 3, lastYieldTime = Some 1000, totalNodes = Some 7\<rparr>,
      now = 1010, yieldDelay = 0, events = []\<rparr>
   \<and> timeCapReached ((noOptions :: unit Options)\<lparr>maxNodes := Some 3, timeout := Some 10, startTime := Some 1000\<rparr>)
     \<lparr>ctx = Some \<lparr>nodeCount = 3, lastYieldTime = Some 1000, totalNodes = Some 7\<rparr>,
      now = 1010, yieldDelay = 0, events = []\<rparr>
   \<and> checkLimits ((noOptions :: unit Options)\<lparr>maxNodes := Some 3, timeout := Some 10, startTime := Some 1000\<rparr>)
     \<lparr>ctx = Some \<lparr>nodeCount = 3, lastYieldTime = Some 1000, totalNodes = Some 7\<rparr>,
      now = 1010, yieldDelay = 0, events = []\<rparr> = Some (CaptureAbortedError MaxNodes)"
proof -
  let ?o = "(noOptions :: unit Options)\<lparr>maxNodes := Some 3, timeout := Some 10, startTime := Some 1000\<rparr>"
  let ?w = "\<lparr>ctx = Some \<lparr>nodeCount = 3, lastYieldTime = Some 1000, totalNodes = Some 7\<rparr>,
             now = 1010, yieldDelay = 0, events = []\<rparr>"
  have a: "nodeCapReached ?o ?w"
    by (simp add: nodeCapReached_def noOptions_def)
  have b: "timeCapReached ?o ?w"
    by (simp add: timeCapReached_def noOptions_def)
  from checkLimits_raises [of ?o ?w] a b show ?thesis
    by simp
qed

text \<open>
  C7 (as amended). A tick in cooperative mode (\<open>nonBlocking\<close> set and a context present,
  whose counter, starting at 0 and only incremented, is not negative) that is not aborted
  by the limit check increments the processed-node counter, then reports
  \<open>onProgress(counter, total)\<close> when the callback and a non-zero total are available, then
  suspends if and only if either \<open>yieldBudget\<close> is configured and the time elapsed since the
  last yield has reached it, or \<open>yieldBudget\<close> is not configured and the counter is an exact
  multiple of \<open>yieldEvery\<close> (50 when absent); on suspension the last-yield timestamp is set
  to the current time before control goes to the host. The tick of the embedding phase has
  no limit check; the tick of the cloning phase checks the limits right after the
  increment.
\<close>

theorem tick_cooperative:
  fixes options :: "'n Options"
  assumes "nonBlocking options" and "ctx w = Some c" and "0 \<le> nodeCount c"
    and "r = maybeYieldToMain_embed options w
         \<or> (r = maybeYieldToMain options w \<and> fst r = Return ())"
  shows "let n = nodeCount c + 1;
             last = (case lastYieldTime c of Some l \<Rightarrow> l
                     | None \<Rightarrow> (case startTime options of Some s \<Rightarrow> s | None \<Rightarrow> now w));
             every = (case yieldEvery options of Some k \<Rightarrow> k | None \<Rightarrow> 50);
             suspend = (case yieldBudget options of
                          Some budget \<Rightarrow> budget \<le> now w - last
                        | None \<Rightarrow> every dvd n);
             reported = (if onProgress options \<and> truthy (totalNodes c)
                         then [Progress n (the (totalNodes c))] else [])
         in fst r = Return ()
            \<and> ctx (snd r) = Some (c\<lparr>nodeCount := n,
                     lastYieldTime := (if suspend then Some (now w) else lastYieldTime c)\<rparr>)
            \<and> events (snd r) = events w @ reported @ (if suspend then [Yielded] else [])
            \<and> now (snd r) = now w + (if suspend then int (yieldDelay w) else 0)"
proof -
  have m: "(every \<noteq> 0 \<and> (nodeCount c + 1) mod every = 0) = (every dvd nodeCount c + 1)" for every
    using assms(3) by (cases "every = 0") (auto simp: mod_eq_0_iff_dvd)
  have e: "maybeYieldToMain_embed options w
           = (Return (), reportAndYield options (c\<lparr>nodeCount := nodeCount c + 1\<rparr>)
                        (w\<lparr>ctx := Some (c\<lparr>nodeCount := nodeCount c + 1\<rparr>)\<rparr>))"
    using assms(1,2) by (simp add: maybeYieldToMain_embed_def Let_def)
  have "r = maybeYieldToMain_embed options w"
    using assms(1,2,4) e
    by (auto simp: maybeYieldToMain_def Let_def split: option.splits)
  then show ?thesis
    unfolding e
    by (simp add: reportAndYield_def shouldYield_def yieldToMain_def Let_def m
             split: option.splits)
qed

theorem tick_cooperative_witness:
  "fst (maybeYieldToMain
          ((noOptions :: unit Options)\<lparr>nonBlocking := True, onProgress := True, yieldEvery := Some 2\<rparr>)
          \<lparr>ctx = Some \<lparr>nodeCount = 3, lastYieldTime = Some 1000, totalNodes = Some 7\<rparr>,
           now = 1010, yieldDelay = 5, events = []\<rparr>) = Return ()
   \<and> ctx (snd (maybeYieldToMain
          ((noOptions :: unit Options)\<lparr>nonBlocking := True, onProgress := True, yieldEvery := Some 2\<rparr>)
          \<lparr>ctx = Some \<lparr>nodeCount = 3, lastYieldTime = Some 1000, totalNodes = Some 7\<rparr>,
           now = 1010, yieldDelay = 5, events = []\<rparr>))
       = Some \<lparr>nodeCount = 4, lastYieldTime = Some 1010, totalNodes = Some 7\<rparr>
   \<and> events (snd (maybeYieldToMain
          ((noOptions :: unit Options)\<lparr>nonBlocking := True, onProgress := True, yieldEvery := Some 2\<rparr>)
          \<lparr>ctx = Some \<lparr>nodeCount = 3, lastYieldTime = Some 1000, totalNodes = Some 7\<rparr>,
           now = 1010, yieldDelay = 5, events = []\<rparr>))
       = [Progress 4 7, Yielded]"
proof -
  let ?o = "(noOptions :: unit Options)\<lparr>nonBlocking := True, onProgress := True, yieldEvery := Some 2\<rparr>"
  let ?c = "\<lparr>nodeCount = 3, lastYieldTime = Some 1000, totalNodes = Some 7\<rparr>"
  let ?w = "\<lparr>ctx = Some ?c, now = 1010, yieldDelay = 5, events = []\<rparr>"
  let ?r = "maybeYieldToMain ?o ?w"
  have a: "nonBlocking ?o" by (simp add: noOptions_def)
  have b: "ctx ?w = Some ?c" by simp
  have c: "0 \<le> nodeCount ?c" by simp
  have d: "fst ?r = Return ()"
    by (simp add: maybeYieldToMain_def checkLimits_def truthy_def noOptions_def Let_def)
  have f: "?r = maybeYieldToMain_embed ?o ?w \<or> (?r = maybeYieldToMain ?o ?w \<and> fst ?r = Return ())"
    using d by simp
  from tick_cooperative [OF a b c f] show ?thesis
    by (simp add: Let_def truthy_def noOptions_def)
qed

text \<open>
  The claim as stated fails for a tick of the cloning phase at which a limit is reached:
  the counter is incremented to 3, the node cap of 3 is reached, and the tick throws
  before it reports progress (the callback and the total are available) and without
  suspending (3 is a multiple of \<open>yieldEvery = 3\<close>).
\<close>

theorem tick_aborted_counterexample:
  "maybeYieldToMain
     ((noOptions :: node Options)\<lparr>nonBlocking := True, onProgress := True,
                                     yieldEvery := Some 3, maxNodes := Some 3\<rparr>)
     (freshWorld\<lparr>ctx := Some \<lparr>nodeCount = 2, lastYieldTime = Some 1000,
                               totalNodes = Some 7\<rparr>\<rparr>)
   = (Throw (CaptureAbortedError MaxNodes),
      freshWorld\<lparr>ctx := Some \<lparr>nodeCount = 3, lastYieldTime = Some 1000,
                                totalNodes = Some 7\<rparr>\<rparr>)
   \<and> events freshWorld = []"
  by code_simp

section \<open>Properties of the chunked raster path\<close>

lemma totalStrips_bound: "i < totalStrips h \<Longrightarrow> stripY i < h"
  by (simp add: totalStrips_def stripY_def STRIP_HEIGHT_def) 

lemma stripHeight_fits: "stripY i < h \<Longrightarrow> stripY i + stripHeight h i \<le> h \<and> 0 < stripHeight h i"
  by (simp add: stripHeight_def STRIP_HEIGHT_def)

lemma stripY_next: "stripY i < h \<Longrightarrow> min (stripY (Suc i)) h = stripY i + stripHeight h i"
  by (simp add: stripHeight_def stripY_def STRIP_HEIGHT_def)

lemma totalStrips_done: "\<not> i < totalStrips h \<Longrightarrow> h \<le> stripY i"
  by (simp add: totalStrips_def stripY_def STRIP_HEIGHT_def) 

lemma putImageData_rows:
  assumes "length (rows t) = h" and "length (rows s) = h" and "y + n \<le> h"
    and "take y (rows t) = take y (rows s)"
  shows "take (y + n) (rows (putImageData t (getImageData s y n) y)) = take (y + n) (rows s)"
    and "length (rows (putImageData t (getImageData s y n) y)) = h"
proof -
  let ?d = "getImageData s y n"
  let ?l = "take y (rows t) @ ?d @ drop (y + n) (rows t)"
  have l: "length ?d = n"
    using assms(2,3) by (simp add: getImageData_def)
  have len: "length ?l = h"
    using assms(1,3) l by simp
  have "take h ?l = ?l"
    by (rule take_all) (simp only: len order_refl)
  moreover have "rows (putImageData t ?d y) = take h ?l"
    unfolding putImageData_def l assms(1) by simp
  ultimately have r: "rows (putImageData t ?d y) = ?l"
    by simp
  have "take (y + n) ?l = take y (rows t) @ ?d"
    using assms(1,3) l by simp
  also have "\<dots> = take y (rows s) @ take n (drop y (rows s))"
    using assms(4) by (simp add: getImageData_def)
  also have "\<dots> = take (y + n) (rows s)"
    by (simp add: take_add)
  finally show "take (y + n) (rows (putImageData t ?d y)) = take (y + n) (rows s)"
    using r by simp
  show "length (rows (putImageData t ?d y)) = h"
    using r len by simp
qed

lemma stripLoop_copies:
  assumes "length (rows s) = height s" and "length (rows t) = height s"
    and "take (stripY i) (rows t) = take (stripY i) (rows s)"
  shows "fst (stripLoop options s i t w) = t\<lparr>rows := rows s\<rparr>"
  using assms
proof (induction options s i t w rule: stripLoop.induct)
  case (1 options s i t w)
  show ?case
  proof (cases "i < totalStrips (height s)")
    case True
    let ?h = "height s"
    let ?t1 = "putImageData t (getImageData s (stripY i) (stripHeight ?h i)) (stripY i)"
    let ?w1 = "if nonBlocking options \<and> i mod 4 = 3 then yieldToMain w else w"
    have y: "stripY i < ?h" using True by (rule totalStrips_bound)
    have f: "stripY i + stripHeight ?h i \<le> ?h" using stripHeight_fits [OF y] by simp
    have a: "take (stripY i + stripHeight ?h i) (rows ?t1) = take (stripY i + stripHeight ?h i) (rows s)"
      and b: "length (rows ?t1) = ?h"
      using putImageData_rows [OF "1.prems"(2) "1.prems"(1) f "1.prems"(3)] by simp_all
    have c: "take (stripY (i + 1)) (rows ?t1) = take (stripY (i + 1)) (rows s)"
    proof -
      have "take (stripY (i + 1)) (rows ?t1) = take (min (stripY (Suc i)) ?h) (rows ?t1)"
        using b by (simp add: min_def)
      also have "\<dots> = take (min (stripY (Suc i)) ?h) (rows s)"
        using a stripY_next [OF y] by simp
      also have "\<dots> = take (stripY (i + 1)) (rows s)"
        using "1.prems"(1) by (simp add: min_def)
      finally show ?thesis .
    qed
    have "fst (stripLoop options s (i + 1) ?t1 ?w1) = ?t1\<lparr>rows := rows s\<rparr>"
      using "1.IH" [OF True refl refl refl refl "1.prems"(1) b c] .
    moreover have "stripLoop options s i t w = stripLoop options s (i + 1) ?t1 ?w1"
      using True by (subst stripLoop.simps) (simp add: Let_def)
    moreover have "?t1\<lparr>rows := rows s\<rparr> = t\<lparr>rows := rows s\<rparr>"
      by (simp add: putImageData_def)
    ultimately show ?thesis by simp
  next
    case False
    then have "height s \<le> stripY i" by (rule totalStrips_done)
    then have "rows t = rows s"
      using "1.prems" by simp
    moreover have "stripLoop options s i t w = (t, w)"
      using False by (subst stripLoop.simps) simp
    ultimately show ?thesis by simp
  qed
qed

lemma strip_tiling:
  assumes "y < h"
  shows "\<exists>!i. i < totalStrips h \<and> stripY i \<le> y \<and> y < stripY i + stripHeight h i"
proof
  show "y div 256 < totalStrips h \<and> stripY (y div 256) \<le> y
        \<and> y < stripY (y div 256) + stripHeight h (y div 256)"
    using assms by (simp add: totalStrips_def stripY_def stripHeight_def STRIP_HEIGHT_def) linarith
next
  fix i
  assume "i < totalStrips h \<and> stripY i \<le> y \<and> y < stripY i + stripHeight h i"
  then have "i * 256 \<le> y" and "y < i * 256 + 256"
    by (auto simp: stripY_def stripHeight_def STRIP_HEIGHT_def)
  then show "i = y div 256"
    by linarith
qed

text \<open>
  C8. For a raster surface whose rows are as many as its height and whose pixel area
  exceeds 500,000, the strip loop fills the auxiliary surface with the dimensions and the
  pixels of the source; the chunked encoding, when it succeeds, is the encoding of the
  source surface; the clone of the canvas is the still image of the synchronous
  single-shot encoding, whichever path is taken; and every row of the surface lies in
  exactly one of the strips (256 rows each, the last one shorter).
\<close>

theorem chunked_canvas_equals_sync:
  assumes "length (rows s) = height s" and "500000 < width s * height s"
  shows "(let filled = fst (stripLoop options s 0 (OffscreenCanvas True (width s) (height s)) w)
          in width filled = width s \<and> height filled = height s \<and> rows filled = rows s)
         \<and> (blobOk h \<longrightarrow> fst (canvasToDataURLChunked h options s w) = Return (toDataURL h s))
         \<and> (bitmap p = s \<longrightarrow>
               fst (cloneCanvasElement h options (Element p ks sh b a) w)
                 = Return (createImage (nid p) (toDataURL h s)))
         \<and> (\<forall>y < height s. \<exists>!i. i < totalStrips (height s) \<and> stripY i \<le> y
                                   \<and> y < stripY i + stripHeight (height s) i)"
proof -
  have copy: "fst (stripLoop options s 0 (OffscreenCanvas c2d (width s) (height s)) w)
              = (OffscreenCanvas c2d (width s) (height s))\<lparr>rows := rows s\<rparr>" for c2d
    by (rule stripLoop_copies) (simp_all add: assms(1) OffscreenCanvas_def stripY_def)
  have nonempty: "width s \<noteq> 0 \<and> height s \<noteq> 0"
    using assms(2) by (cases "width s = 0"; cases "height s = 0") simp_all
  have chunked: "fst (canvasToDataURLChunked h options s w) = Return (toDataURL h s)
                 \<or> (\<exists>e. fst (canvasToDataURLChunked h options s w) = Throw e \<and> \<not> blobOk h)"
    using copy [of "offscreen2d h"] nonempty
    by (auto simp: canvasToDataURLChunked_def Let_def toDataURL_def OffscreenCanvas_def
             split: prod.splits)
  have a: "let filled = fst (stripLoop options s 0 (OffscreenCanvas True (width s) (height s)) w)
           in width filled = width s \<and> height filled = height s \<and> rows filled = rows s"
    unfolding copy by (simp add: OffscreenCanvas_def)
  have b: "blobOk h \<longrightarrow> fst (canvasToDataURLChunked h options s w) = Return (toDataURL h s)"
    using chunked by auto
  have c: "bitmap p = s \<longrightarrow>
             fst (cloneCanvasElement h options (Element p ks sh b a) w)
               = Return (createImage (nid p) (toDataURL h s))"
  proof
    assume p: "bitmap p = s"
    have ne: "toDataURL h s \<noteq> ''data:,''"
      using nonempty by (simp add: toDataURL_def)
    show "fst (cloneCanvasElement h options (Element p ks sh b a) w)
            = Return (createImage (nid p) (toDataURL h s))"
      using chunked ne p
      by (cases "canvasToDataURLChunked h options s w")
         (auto simp: Let_def bind_def tryCatch_def)
  qed
  have d: "\<forall>y < height s. \<exists>!i. i < totalStrips (height s) \<and> stripY i \<le> y
                                 \<and> y < stripY i + stripHeight (height s) i"
    using strip_tiling by blast
  from a b c d show ?thesis by blast
qed

theorem chunked_canvas_equals_sync_witness:
  "fst (cloneCanvasElement plainHost noOptions
          (Element ((plainProps ''CANVAS'')\<lparr>nid := 1, iface := HTMLCanvasElement,
                      bitmap := \<lparr>width = 2000, height = 300,
                                 rows = replicate 300 (replicate 2000 7), has2d = True\<rparr>\<rparr>)
             [] None None [])
          \<lparr>ctx = None, now = 1000, yieldDelay = 0, events = []\<rparr>)
     = Return (createImage 1 ''data:image/png;base64,png'')"
proof -
  let ?s = "\<lparr>width = 2000, height = 300, rows = replicate 300 (replicate 2000 (7::nat)), has2d = True\<rparr>"
  let ?p = "(plainProps ''CANVAS'')\<lparr>nid := 1, iface := HTMLCanvasElement, bitmap := ?s\<rparr>"
  have a: "length (rows ?s) = height ?s" by simp
  have b: "500000 < width ?s * height ?s" by simp
  have c: "bitmap ?p = ?s" by simp
  from chunked_canvas_equals_sync [OF a b, of noOptions
      "\<lparr>ctx = None, now = 1000, yieldDelay = 0, events = []\<rparr>" plainHost ?p "[]" None None "[]"] c
  show ?thesis
    by (simp add: toDataURL_def plainHost_def plainProps_def)
qed

section \<open>Properties of the decoration\<close>





















section \<open>Properties of the embedder\<close>

lemma splitUrl_text:
  assumes "splitUrl s = Some (inner, rest)"
  shows "s = ''url('' @ inner @ '')'' @ rest"
proof -
  let ?d = "drop 4 s"
  let ?p = "\<lambda>x. x \<noteq> CHR '')''"
  from assms have t: "take 4 s = ''url(''" and m: "CHR '')'' \<in> set ?d"
    and i: "inner = takeWhile ?p ?d" and r: "rest = tl (dropWhile ?p ?d)"
    by (auto simp: splitUrl_def split: if_splits)
  from m have "dropWhile ?p ?d \<noteq> []"
    by (auto simp: dropWhile_eq_Nil_conv)
  then have "dropWhile ?p ?d = hd (dropWhile ?p ?d) # rest"
    using r by simp
  moreover have "hd (dropWhile ?p ?d) = CHR '')''"
    using \<open>dropWhile ?p ?d \<noteq> []\<close> hd_dropWhile [of ?p ?d] by simp
  ultimately have "?d = inner @ CHR '')'' # rest"
    using i takeWhile_dropWhile_id [of ?p ?d] by simp
  then have "take 4 s @ ?d = ''url('' @ inner @ '')'' @ rest"
    using t by simp
  then show ?thesis by simp
qed

lemma embedResources_inline:
  "inlineOnly s \<Longrightarrow> embedResources h s w = (Return s, w)"
proof (induction s rule: inlineOnly.induct)
  case (1 cssText)
  show ?case
  proof (cases "splitUrl cssText")
    case None
    then show ?thesis
      using 1 by (cases cssText) (simp_all add: embedResources.simps inlineOnly.simps bind_def)
  next
    case (Some a)
    obtain inner rest where a: "a = (inner, rest)" by (cases a)
    have d: "isDataUrl (unquote inner)" and r: "inlineOnly rest"
      using "1.prems" Some a by (simp_all add: inlineOnly.simps)
    have "embedResources h rest w = (Return rest, w)"
      using "1.IH"(2) [OF Some a [symmetric]] r by simp
    then show ?thesis
      using Some a d splitUrl_text [of cssText inner rest]
      by (subst embedResources.simps) (simp add: bind_def)
  qed
qed

lemma embedProp_inline:
  assumes "inlineOnly (getPropertyValue (styleOf n) name)"
  shows "embedProp h name n options w
         = (Return (getPropertyValue (styleOf n) name \<noteq> [], n), w)"
proof (cases n)
  case (TextNode i s)
  then show ?thesis by (simp add: getPropertyValue_def)
next
  case (Element p ks sh b a)
  have u: "setProperty h (style p) name (getPropertyValue (style p) name)
             (getPropertyPriority (style p) name) = style p"
    if "getPropertyValue (style p) name \<noteq> []"
    using that
    by (auto simp: setProperty_def getPropertyValue_def getPropertyPriority_def update_triv
             split: option.splits)
  show ?thesis
    using assms Element u
    by (simp add: Let_def embedResources_inline bind_def)
qed

lemma embedFirst_inline:
  assumes "list_all (\<lambda>name. inlineOnly (getPropertyValue (styleOf n) name)) names"
  shows "embedFirst h names n options w = (Return n, w)"
  using assms
  by (induction names) (simp_all add: embedProp_inline bind_def)

lemma embedBackground_inline:
  assumes "list_all (\<lambda>name. inlineOnly (getPropertyValue (styleOf n) name)) embeddableProps"
  shows "embedBackground h n options w = (Return n, w)"
proof -
  have a: "list_all (\<lambda>name. inlineOnly (getPropertyValue (styleOf n) name))
             [''background'', ''background-image'']"
    and b: "list_all (\<lambda>name. inlineOnly (getPropertyValue (styleOf n) name))
             [''mask'', ''-webkit-mask'', ''mask-image'', ''-webkit-mask-image'']"
    using assms by (simp_all add: embeddableProps_def)
  show ?thesis
    unfolding embedBackground_def embedFirst_inline [OF a] bind_def
    by (simp only: prod.case outcome.case embedFirst_inline [OF b])
qed

lemma resolutions_append: "resolutions (es @ fs) = resolutions es @ resolutions fs"
  by (induction es rule: resolutions.induct) simp_all

lemma tick_embed_returns:
  "fst (maybeYieldToMain_embed options w) = Return ()
   \<and> resolutions (events (snd (maybeYieldToMain_embed options w))) = resolutions (events w)"
  by (simp add: maybeYieldToMain_embed_def reportAndYield_def yieldToMain_def Let_def
                resolutions_append
           split: option.splits)

lemma embed_inline:
  "fullyEmbedded n \<Longrightarrow>
     fst (embedImages h n options w) = Return n
     \<and> resolutions (events (snd (embedImages h n options w))) = resolutions (events w)"
  "list_all fullyEmbedded ks \<Longrightarrow>
     fst (embedChildren h ks options w) = Return ks
     \<and> resolutions (events (snd (embedChildren h ks options w))) = resolutions (events w)"
proof (induction h n options w and h ks options w rule: embedImages_embedChildren.induct)
  case (1 h i s options w)
  then show ?case by simp
next
  case (2 h p ks sh b a options w)
  let ?n = "Element p ks sh b a"
  have bg: "embedBackground h ?n options w = (Return ?n, w)"
    using "2.prems" by (simp add: embedBackground_inline)
  have im: "embedImageNode h ?n options w = (Return ?n, w)"
    using "2.prems" by (simp add: embedImageNode_def Let_def split: if_splits)
  have ks: "list_all fullyEmbedded ks"
    using "2.prems" by simp
  have "fst (embedChildren h ks options w) = Return ks
        \<and> resolutions (events (snd (embedChildren h ks options w))) = resolutions (events w)"
    using "2.IH" [OF ks] .
  then show ?case
    using bg im
    by (cases "embedChildren h ks options w") (simp add: bind_def)
next
  case (3 h options w)
  then show ?case by simp
next
  case (4 h child rest options w)
  obtain u w1 where t: "maybeYieldToMain_embed options w = (Return u, w1)"
    and r1: "resolutions (events w1) = resolutions (events w)"
    using tick_embed_returns [of options w]
    by (cases "maybeYieldToMain_embed options w") auto
  have c: "fullyEmbedded child" and rs: "list_all fullyEmbedded rest"
    using "4.prems" by simp_all
  have i1: "fst (embedImages h child options w1) = Return child
            \<and> resolutions (events (snd (embedImages h child options w1))) = resolutions (events w1)"
    using "4.IH"(1) [OF c] .
  then obtain w2 where e: "embedImages h child options w1 = (Return child, w2)"
    and r2: "resolutions (events w2) = resolutions (events w1)"
    by (cases "embedImages h child options w1") auto
  have "fst (embedChildren h rest options w2) = Return rest
        \<and> resolutions (events (snd (embedChildren h rest options w2))) = resolutions (events w2)"
    using "4.IH"(2) [OF rs] .
  then show ?case
    using t e r1 r2
    by (cases "embedChildren h rest options w2") (simp add: bind_def)
qed

text \<open>
  C9. On a clone tree that is already fully embedded (every embeddable style declaration
  and every image source is inline), the resource embedder returns the tree unchanged and
  hands nothing to the external resource resolver.
\<close>

theorem embedding_idempotent:
  assumes "fullyEmbedded n"
  shows "fst (embedImages h n options w) = Return n
         \<and> resolutions (events (snd (embedImages h n options w))) = resolutions (events w)"
  using assms by (rule embed_inline(1))

theorem embedding_idempotent_witness:
  "fst (embedImages plainHost
          (Element ((plainProps ''DIV'')\<lparr>nid := 1,
                      style := [(''background'', ''url(data:abc) no-repeat'', [])]\<rparr>)
             [createImage 2 ''data:xyz''] None None [])
          (noOptions\<lparr>nonBlocking := True\<rparr>)
          \<lparr>ctx = Some \<lparr>nodeCount = 0, lastYieldTime = Some 1000, totalNodes = Some 5\<rparr>,
           now = 1000, yieldDelay = 0, events = []\<rparr>)
   = Return (Element ((plainProps ''DIV'')\<lparr>nid := 1,
                        style := [(''background'', ''url(data:abc) no-repeat'', [])]\<rparr>)
               [createImage 2 ''data:xyz''] None None [])
   \<and> resolutions (events (snd (embedImages plainHost
          (Element ((plainProps ''DIV'')\<lparr>nid := 1,
                      style := [(''background'', ''url(data:abc) no-repeat'', [])]\<rparr>)
             [createImage 2 ''data:xyz''] None None [])
          (noOptions\<lparr>nonBlocking := True\<rparr>)
          \<lparr>ctx = Some \<lparr>nodeCount = 0, lastYieldTime = Some 1000, totalNodes = Some 5\<rparr>,
           now = 1000, yieldDelay = 0, events = []\<rparr>))) = []"
proof -
  let ?n = "Element ((plainProps ''DIV'')\<lparr>nid := 1,
                       style := [(''background'', ''url(data:abc) no-repeat'', [])]\<rparr>)
              [createImage 2 ''data:xyz''] None None []"
  have a: "fullyEmbedded ?n"
    by code_simp
  from embedding_idempotent [OF a] show ?thesis
    by simp
qed

section \<open>Invariants of a traversal\<close>
























section \<open>Captures without cooperative mode\<close>







section \<open>Progress reports\<close>











section \<open>Abort signals\<close>

text \<open>
  C1. The claim is that an abort signal raised anywhere in the recursive clone, also
  while the body of a nested document is cloned, fails the whole capture. The code does
  not do this. In the document \<open><div><iframe></iframe></div>\<close> whose frame body hosts a
  shadow root with one element, cloning the body raises \<open>MaxNodes\<close> (with \<open>maxNodes = 2\<close>)
  or \<open>Timeout\<close> (with \<open>timeout = 10\<close> and a frame that takes 100 ms); the handler of
  \<open>cloneIFrameElement\<close> catches the signal, the frame becomes a shallow clone, and the
  capture returns a tree without the content of the frame.
\<close>

theorem abort_inside_frame_is_caught:
  "fst (cloneNode 4 plainHost
          (noOptions\<lparr>nonBlocking := True, maxNodes := Some 2, startTime := Some 1000\<rparr>)
          frameBody True
          (freshWorld\<lparr>ctx := Some \<lparr>nodeCount = 1, lastYieldTime = Some 1000,
                                    totalNodes = Some 5\<rparr>\<rparr>))
     = Throw (CaptureAbortedError MaxNodes)
   \<and> toSvg 6 plainHost (frameDocument 0)
        (noOptions\<lparr>nonBlocking := True, maxNodes := Some 2\<rparr>) freshWorld
     = (Return (el 1 ''DIV'' [frameElement 0 None]),
        freshWorld\<lparr>ctx := Some \<lparr>nodeCount = 3, lastYieldTime = Some 1000,
                                  totalNodes = Some 5\<rparr>\<rparr>)
   \<and> fst (cloneNode 4 plainHost
          (noOptions\<lparr>nonBlocking := True, timeout := Some 10, startTime := Some 1000\<rparr>)
          frameBody True
          (freshWorld\<lparr>ctx := Some \<lparr>nodeCount = 1, lastYieldTime = Some 1000,
                                    totalNodes = Some 5\<rparr>, now := 1100\<rparr>))
     = Throw (CaptureAbortedError Timeout)
   \<and> toSvg 6 plainHost (frameDocument 100)
        (noOptions\<lparr>nonBlocking := True, timeout := Some 10\<rparr>) freshWorld
     = (Return (el 1 ''DIV'' [frameElement 100 None]),
        freshWorld\<lparr>ctx := Some \<lparr>nodeCount = 3, lastYieldTime = Some 1000,
                                  totalNodes = Some 5\<rparr>, now := 1100\<rparr>)"
  by code_simp

text \<open>
  Where the timeout is enforced: in cooperative mode (\<open>nonBlocking\<close> set, a traversal
  context), with a non-zero \<open>timeout\<close> and the start time recorded, a tick of the cloning
  phase that is reached when the time elapsed since the start is at least the timeout
  raises an abort signal: \<open>Timeout\<close>, or \<open>MaxNodes\<close> when the node cap has been reached as
  well; the loop over the children of a node and the loop over the symbol references of a
  clone stop with that signal at their next item.
\<close>

lemma clone_tick_raises_timeout:
  assumes "nonBlocking options" and "ctx w = Some c"
    and "timeout options = Some t" and "t \<noteq> 0"
    and "startTime options = Some s" and "s \<noteq> 0" and "t \<le> now w - s"
  shows "fst (maybeYieldToMain options w)
           = Throw (CaptureAbortedError
               (if nodeCapReached options (w\<lparr>ctx := Some (c\<lparr>nodeCount := nodeCount c + 1\<rparr>)\<rparr>)
                then MaxNodes else Timeout))
         \<and> isAbort (fst (cloneChildrenLoop fuel h options (child # rest) clonedNode w))
         \<and> isAbort (fst (ensureSVGSymbolsLoop fuel h options clone (use # uses) defs w))"
proof -
  let ?w1 = "w\<lparr>ctx := Some (c\<lparr>nodeCount := nodeCount c + 1\<rparr>)\<rparr>"
  let ?r = "if nodeCapReached options ?w1 then MaxNodes else Timeout"
  have "checkLimits options ?w1 = Some (CaptureAbortedError ?r)"
    using assms
    by (auto simp: checkLimits_def truthy_def nodeCapReached_def split: option.splits)
  then have tick: "maybeYieldToMain options w = (Throw (CaptureAbortedError ?r), ?w1)"
    using assms(1,2) by (simp add: maybeYieldToMain_def Let_def)
  show ?thesis
    using tick by (simp add: bind_def)
qed

text \<open>
  C2. The claim is that a capture with \<open>timeout = T\<close> that lasts longer than \<open>T\<close> rejects with
  a timeout signal, in either phase and with or without \<open>nonBlocking\<close>. The code does not
  do this. In the document \<open><div><p></p></div>\<close> whose paragraph takes 100 ms to clone,
  with \<open>timeout = 10\<close>: without \<open>nonBlocking\<close> no tick checks the limits, and the capture
  returns its result after 100 ms; with \<open>nonBlocking\<close> the only tick of the cloning phase
  comes before the slow node, the tick of the embedding phase is reached 100 ms after the
  start and has no limit check, and the capture returns its result as well. In the state
  in which the tick of the embedding phase returns, the tick of the cloning phase raises
  \<open>Timeout\<close>.
\<close>

theorem timeout_not_enforced:
  "toSvg 6 plainHost slowDocument (noOptions\<lparr>timeout := Some 10\<rparr>) freshWorld
     = (Return slowDocument,
        freshWorld\<lparr>ctx := Some \<lparr>nodeCount = 0, lastYieldTime = Some 1000,
                                  totalNodes = Some 5\<rparr>, now := 1100\<rparr>)
   \<and> toSvg 6 plainHost slowDocument
        (noOptions\<lparr>nonBlocking := True, timeout := Some 10\<rparr>) freshWorld
     = (Return slowDocument,
        freshWorld\<lparr>ctx := Some \<lparr>nodeCount = 2, lastYieldTime = Some 1000,
                                  totalNodes = Some 5\<rparr>, now := 1100\<rparr>)
   \<and> now (freshWorld\<lparr>now := 1100\<rparr>) - now freshWorld = 100
   \<and> maybeYieldToMain_embed
        ((noOptions :: node Options)\<lparr>nonBlocking := True, timeout := Some 10, startTime := Some 1000\<rparr>)
        (freshWorld\<lparr>ctx := Some \<lparr>nodeCount = 1, lastYieldTime = Some 1000,
                                  totalNodes = Some 5\<rparr>, now := 1100\<rparr>)
     = (Return (),
        freshWorld\<lparr>ctx := Some \<lparr>nodeCount = 2, lastYieldTime = Some 1000,
                                  totalNodes = Some 5\<rparr>, now := 1100\<rparr>)
   \<and> fst (maybeYieldToMain
        ((noOptions :: node Options)\<lparr>nonBlocking := True, timeout := Some 10, startTime := Some 1000\<rparr>)
        (freshWorld\<lparr>ctx := Some \<lparr>nodeCount = 1, lastYieldTime = Some 1000,
                                  totalNodes = Some 5\<rparr>, now := 1100\<rparr>))
     = Throw (CaptureAbortedError Timeout)"
  by code_simp

section \<open>Properties of filtering\<close>

lemma bind_Return:
  assumes "bind r k = (Return c, w')"
  obtains a w1 where "r = (Return a, w1)" and "k a w1 = (Return c, w')"
proof (cases r)
  case (Pair out w1)
  then show ?thesis
    using assms that by (cases out) (simp_all add: bind_def)
qed

lemma tryCatch_Return:
  assumes "tryCatch r handler = (Return c, w')"
  obtains "r = (Return c, w')"
  | e w1 where "r = (Throw e, w1)" and "handler e w1 = (Return c, w')"
proof (cases r)
  case (Pair out w1)
  then show ?thesis
    using assms that by (cases out) (simp_all add: tryCatch_def)
qed

lemma visited_unfold:
  "visited options n = n # concat (map (visited options) (parts options n))"
  by (subst visited.simps) simp

lemma copied_unfold:
  "copied options n = own n @ concat (map (copied options) (parts options n))"
proof -
  have "concat (map own (concat (map (visited options) ps)))
        = concat (map (copied options) ps)" for ps
    by (induction ps) (simp_all add: copied_def)
  then show ?thesis
    unfolding copied_def by (subst visited_unfold) simp
qed


lemma own_head: "n \<in> set (own n)"
  by (cases n) (simp_all add: own_def)

lemma copied_self: "n \<in> set (copied options n)"
  by (subst copied_unfold) (simp add: own_head)

lemma copied_own: "set (own n) \<subseteq> set (copied options n)"
  by (subst copied_unfold) simp

lemma copied_part:
  "k \<in> set (parts options n) \<Longrightarrow> set (copied options k) \<subseteq> set (copied options n)"
  by (subst (2) copied_unfold) auto






lemma loopChildren_walkedSame:
  "walkedSame b \<Longrightarrow> loopChildren b = childNodes b"
  by (simp add: walkedSame_def loopChildren_def)

lemma loop_child_copied:
  assumes "\<not> copiesDeep n" and "\<not> isInstanceOfElement n HTMLVideoElement"
    and "k \<in> set (childrenToClone n)" and "\<not> excluded options k False"
  shows "set (copied options k) \<subseteq> set (copied options n)"
proof (cases "k \<in> set (loopChildren n)")
  case True
  then have "k \<in> set (parts options n)" using assms(4) by (simp add: parts_def)
  then show ?thesis by (rule copied_part)
next
  case False
  then obtain b where b: "nestedBody n = Some b" and ws: "walkedSame b"
    and ch: "childrenToClone n = childNodes b"
    using assms(1,2,3) by (auto simp: loopChildren_def split: option.splits if_splits)
  have "k \<in> set (loopChildren b)"
    using assms(3) ch loopChildren_walkedSame [OF ws] by simp
  then have "k \<in> set (parts options b)" using assms(4) by (simp add: parts_def)
  then have "set (copied options k) \<subseteq> set (copied options b)" by (rule copied_part)
  moreover have "b \<in> set (parts options n)" using b by (simp add: parts_def)
  ultimately show ?thesis using copied_part by blast
qed

lemma answers_bind:
  assumes "answers r"
    and "\<And>a w1. r = (Return a, w1) \<Longrightarrow> answers (k a w1)"
  shows "answers (bind r k)"
proof (cases r)
  case (Pair out w1)
  then show ?thesis
    using assms by (cases out) (simp_all add: bind_def answers_def)
qed

lemma answers_tryCatch:
  assumes "answers r"
    and "\<And>e w1. r = (Throw e, w1) \<Longrightarrow> answers (handler e w1)"
  shows "answers (tryCatch r handler)"
proof (cases r)
  case (Pair out w1)
  then show ?thesis
    using assms by (cases out) (simp_all add: tryCatch_def answers_def)
qed

lemma maybeYieldToMain_answers: "answers (maybeYieldToMain options w)"
  by (simp add: maybeYieldToMain_def Let_def answers_def split: option.splits)

lemma resolves_props: "resolves h (Element p ks sh b a) = resolves h (Element p ks' sh' b' a')"
  by (simp add: resolves_def isUse_def)

lemma resolves_text: "\<not> resolves h (TextNode i s)"
  by (simp add: resolves_def isUse_def)

lemma cloneOf_mono: "cloneOf h S c \<Longrightarrow> S \<subseteq> T \<Longrightarrow> cloneOf h T c"
  by (induction h S c rule: cloneOf.induct) (auto simp: list_all_iff)


lemma cloneOf_subtree: "cloneOf h S c \<Longrightarrow> m \<in> set (subtree c) \<Longrightarrow> \<not> resolves h m"
proof (induction h S c arbitrary: m rule: cloneOf.induct)
  case (1 h S i s)
  then show ?case by (simp add: resolves_text)
next
  case (2 h S p ks sh b a)
  then show ?case by (auto simp: list_all_iff)
qed

lemma cloneOf_uses:
  assumes "cloneOf h S c"
  shows "\<forall>u \<in> set (querySelectorAll c (TypeSelector ''use'')). isUse u \<and> \<not> resolves h u"
proof
  fix u
  assume u: "u \<in> set (querySelectorAll c (TypeSelector ''use''))"
  then have md: "u \<in> set (descendants c)" and iu: "isUse u"
    by (simp_all add: querySelectorAll_def isUse_def)
  have "\<not> resolves h u"
  proof (cases c)
    case (TextNode i s)
    then show ?thesis using md by (simp add: descendants_def)
  next
    case (Element p ks sh b a)
    obtain k where k: "k \<in> set ks" and m: "u \<in> set (subtree k)"
      using md Element by (auto simp: descendants_def)
    have "cloneOf h S k" using assms Element k by (simp add: list_all_iff)
    then show ?thesis using m by (rule cloneOf_subtree)
  qed
  then show "isUse u \<and> \<not> resolves h u" using iu by simp
qed

lemma cloneOf_appendChild: "cloneOf h S a \<Longrightarrow> cloneOf h S c \<Longrightarrow> cloneOf h S (appendChild a c)"
  by (cases a) (simp_all add: resolves_def isUse_def)

lemma cloneOf_setAttribute:
  "cloneOf h S c \<Longrightarrow> name \<noteq> ''xlink:href'' \<Longrightarrow> cloneOf h S (setAttribute c name v)"
  by (cases c) (simp_all add: resolves_def isUse_def update_conv')

lemma cloneOf_selectOption:
  "list_all (cloneOf h S) ks \<Longrightarrow> list_all (cloneOf h S) (selectOption v ks)"
  by (induction ks) (simp_all add: cloneOf_setAttribute)

lemma cloneOf_decorate: "cloneOf h S c \<Longrightarrow> cloneOf h S (decorate h n c)"
proof -
  assume c: "cloneOf h S c"
  have 1: "cloneOf h S (cloneCSSStyle h n c)"
    using c by (cases "(h, n, c)" rule: cloneCSSStyle.cases) (simp_all add: resolves_def isUse_def)
  have "cloneOf h S (setInnerText x v)" if "cloneOf h S x" for x v
    using that by (cases x) (simp_all add: resolves_def isUse_def)
  then have 2: "cloneOf h S (cloneInputValue n x)" if "cloneOf h S x" for x
    using that by (simp add: cloneInputValue_def Let_def cloneOf_setAttribute)
  have 3: "cloneOf h S (cloneSelectValue n x)" if "cloneOf h S x" for x
    using that by (cases x) (simp_all add: cloneOf_selectOption resolves_def isUse_def)
  show ?thesis
    using c 1 2 3 by (simp add: decorate_def)
qed

lemma cloneOf_createImage: "cloneOf h {i} (createImage i url)"
  by (simp add: createImage_def resolves_def isUse_def toLowerCase_def)

lemma cloneOf_shallow: "\<not> resolves h n \<Longrightarrow> cloneOf h {nodeId n} (domCloneNode n False)"
  by (cases n) (simp_all add: domCloneNode_def resolves_def isUse_def)

lemma cloneOf_deep:
  "list_all (\<lambda>m. \<not> resolves h m) (subtree n)
   \<Longrightarrow> cloneOf h (set (map nodeId (subtree n))) (deepClone n)"
proof (induction n rule: deepClone.induct)
  case (1 i s)
  then show ?case by simp
next
  case (2 p ks sh b a)
  have "cloneOf h (set (map nodeId (subtree (Element p ks sh b a)))) (deepClone k)"
    if k: "k \<in> set ks" for k
  proof -
    have "list_all (\<lambda>m. \<not> resolves h m) (subtree k)"
      using "2.prems" k by (auto simp: list_all_iff)
    then have "cloneOf h (set (map nodeId (subtree k))) (deepClone k)"
      using "2.IH" k by blast
    then show ?thesis
      by (rule cloneOf_mono) (use k in auto)
  qed
  moreover have "\<not> resolves h (Element p (map deepClone ks) None None [])"
    using "2.prems" resolves_props [of h p ks sh b a] by simp
  ultimately show ?case
    by (simp add: list_all_iff)
qed

lemma cloneCanvasElement_result:
  assumes "cloneCanvasElement h options n w = (Return c, w')"
  shows "c = domCloneNode n False \<or> (\<exists>url. c = createImage (nodeId n) url)"
proof (cases n)
  case (TextNode i s)
  then show ?thesis using assms by (auto simp: domCloneNode_def)
next
  case (Element p ks sh b a)
  show ?thesis
  proof (cases "canvasToDataURLChunked h options (bitmap p) w")
    case (Pair out w1)
    then show ?thesis
      using assms Element
      by (cases out) (auto simp: Let_def bind_def tryCatch_def split: if_splits)
  qed
qed

lemma cloneVideoElement_result:
  assumes "cloneVideoElement h options n w = (Return c, w')"
  shows "c = domCloneNode n False \<or> (\<exists>url. c = createImage (nodeId n) url)"
  using assms
  by (cases n) (auto simp: domCloneNode_def Let_def split: if_splits option.splits)

lemma nodeId_copiedIds: "nodeId n \<in> set (copiedIds options n)"
  using copied_self [of n options] by (auto simp: copiedIds_def)

lemma cloneSingleNode_copied:
  assumes nu: "list_all (\<lambda>m. \<not> resolves h m) (copied options n)"
    and ih: "\<And>b w c w'. nestedBody n = Some b
               \<Longrightarrow> cloneNode fuel h options b True w = (Return (Some c), w')
               \<Longrightarrow> cloneOf h (set (copiedIds options b)) c"
    and r: "cloneSingleNode fuel h options n w = (Return c, w')"
  shows "cloneOf h (set (copiedIds options n)) c"
proof -
  have self: "\<not> resolves h n"
    using nu copied_self [of n options] by (auto simp: list_all_iff)
  have sh: "cloneOf h (set (copiedIds options n)) (domCloneNode n False)"
    by (rule cloneOf_mono [OF cloneOf_shallow [OF self]]) (simp add: nodeId_copiedIds)
  have im: "cloneOf h (set (copiedIds options n)) (createImage (nodeId n) url)" for url
    by (rule cloneOf_mono [OF cloneOf_createImage]) (simp add: nodeId_copiedIds)
  consider (canvas) "isInstanceOfElement n HTMLCanvasElement"
    | (video) "\<not> isInstanceOfElement n HTMLCanvasElement" "isInstanceOfElement n HTMLVideoElement"
    | (frame) "\<not> isInstanceOfElement n HTMLCanvasElement" "\<not> isInstanceOfElement n HTMLVideoElement"
        "isInstanceOfElement n HTMLIFrameElement"
    | (plain) "\<not> isInstanceOfElement n HTMLCanvasElement" "\<not> isInstanceOfElement n HTMLVideoElement"
        "\<not> isInstanceOfElement n HTMLIFrameElement"
    by blast
  then show ?thesis
  proof cases
    case canvas
    then have "cloneCanvasElement h options n w = (Return c, w')"
      using r by (simp add: cloneSingleNode.simps)
    then show ?thesis using cloneCanvasElement_result sh im by blast
  next
    case video
    then have "cloneVideoElement h options n w = (Return c, w')"
      using r by (simp add: cloneSingleNode.simps)
    then show ?thesis using cloneVideoElement_result sh im by blast
  next
    case frame
    then have fr: "cloneIFrameElement fuel h options n w = (Return c, w')"
      using r by (simp add: cloneSingleNode.simps)
    show ?thesis
    proof (cases "contentBody n")
      case None
      then show ?thesis using fr sh by (simp add: cloneIFrameElement.simps)
    next
      case (Some body)
      have nb: "nestedBody n = Some body"
        using Some frame(3) by (cases n) simp_all
      have bp: "body \<in> set (parts options n)" using nb by (simp add: parts_def)
      have "tryCatch
              (bind (cloneNode fuel h options body True w) (\<lambda>cloned w1.
                 case cloned of
                   Some c \<Rightarrow> (Return c, w1)
                 | None \<Rightarrow> (Throw (OtherError ''null''), w1)))
              (\<lambda>e w1. (Return (domCloneNode n False), w1)) = (Return c, w')"
        using fr Some by (simp add: cloneIFrameElement.simps)
      then show ?thesis
      proof (cases rule: tryCatch_Return)
        case 1
        then obtain cloned w1 where cl: "cloneNode fuel h options body True w = (Return cloned, w1)"
          and k: "(case cloned of Some c \<Rightarrow> (Return c, w1)
                   | None \<Rightarrow> (Throw (OtherError ''null''), w1)) = (Return c, w')"
          by (rule bind_Return)
        from k have "cloned = Some c" by (cases cloned) simp_all
        then have "cloneOf h (set (copiedIds options body)) c"
          using ih [OF nb] cl by simp
        then show ?thesis
          by (rule cloneOf_mono) (use copied_part [OF bp] in \<open>auto simp: copiedIds_def\<close>)
      next
        case (2 e w1)
        then show ?thesis using sh by simp
      qed
    qed
  next
    case plain
    then have c: "c = domCloneNode n (isSVGElement n)"
      using r by (simp add: cloneSingleNode.simps)
    show ?thesis
    proof (cases "isSVGElement n")
      case True
      then have cd: "copiesDeep n" using plain by (simp add: copiesDeep_def)
      then have o: "own n = subtree n" by (simp add: own_def)
      have "list_all (\<lambda>m. \<not> resolves h m) (subtree n)"
        using nu copied_own [of n options] o by (auto simp: list_all_iff)
      then have "cloneOf h (set (map nodeId (subtree n))) (deepClone n)"
        by (rule cloneOf_deep)
      then show ?thesis
        using c True
        by (simp add: domCloneNode_def)
           (rule cloneOf_mono, assumption,
            use copied_own [of n options] o in \<open>auto simp: copiedIds_def\<close>)
    next
      case False
      then show ?thesis using c sh by simp
    qed
  qed
qed

lemma cloneNode_Some_accepted:
  "cloneNode fuel h options n isRoot w = (Return (Some c), w') \<Longrightarrow> \<not> excluded options n isRoot"
  by (cases fuel) (auto split: if_splits)

lemma cloneNode_excluded:
  "excluded options n isRoot \<Longrightarrow> cloneNode fuel h options n isRoot w = (Return None, w)"
  by (cases fuel) simp_all

lemma cloneChildrenLoop_copied:
  assumes ih: "\<And>k r w c w'. list_all (\<lambda>m. \<not> resolves h m) (copied options k)
                 \<Longrightarrow> cloneNode fuel h options k r w = (Return (Some c), w')
                 \<Longrightarrow> cloneOf h (set (copiedIds options k)) c"
  shows "\<forall>k \<in> set kids. \<not> excluded options k False
            \<longrightarrow> list_all (\<lambda>m. \<not> resolves h m) (copied options k) \<and> set (copiedIds options k) \<subseteq> S
         \<Longrightarrow> cloneOf h S acc
         \<Longrightarrow> cloneChildrenLoop fuel h options kids acc w = (Return c, w')
         \<Longrightarrow> cloneOf h S c"
proof (induction kids arbitrary: acc w)
  case Nil
  then show ?case by simp
next
  case (Cons child rest)
  from Cons.prems(3) obtain u w1 where "maybeYieldToMain options w = (Return u, w1)"
    and r1: "bind (cloneNode fuel h options child False w1) (\<lambda>clonedChild w2.
               cloneChildrenLoop fuel h options rest
                 (case clonedChild of Some c \<Rightarrow> appendChild acc c | None \<Rightarrow> acc) w2)
             = (Return c, w')"
    unfolding cloneChildrenLoop.simps by (rule bind_Return)
  from r1 obtain clonedChild w2
    where cl: "cloneNode fuel h options child False w1 = (Return clonedChild, w2)"
    and r2: "cloneChildrenLoop fuel h options rest
               (case clonedChild of Some c \<Rightarrow> appendChild acc c | None \<Rightarrow> acc) w2 = (Return c, w')"
    by (rule bind_Return)
  have acc': "cloneOf h S (case clonedChild of Some c \<Rightarrow> appendChild acc c | None \<Rightarrow> acc)"
  proof (cases clonedChild)
    case None
    then show ?thesis using Cons.prems(2) by simp
  next
    case (Some ck)
    have ne: "\<not> excluded options child False"
      using cl Some cloneNode_Some_accepted by blast
    then have nu: "list_all (\<lambda>m. \<not> resolves h m) (copied options child)"
      and sub: "set (copiedIds options child) \<subseteq> S"
      using Cons.prems(1) by simp_all
    have "cloneOf h (set (copiedIds options child)) ck"
      using ih [OF nu] cl Some by simp
    then have "cloneOf h S ck" using sub by (rule cloneOf_mono)
    then show ?thesis
      using Some Cons.prems(2) by (simp add: cloneOf_appendChild)
  qed
  show ?case
    by (rule Cons.IH [OF _ acc' r2]) (use Cons.prems(1) in simp)
qed

lemma isSVGElement_deepClone: "isSVGElement (deepClone n) = isSVGElement n"
  by (cases n) simp_all

lemma cloneChildren_copied:
  assumes ih: "\<And>k r w c w'. list_all (\<lambda>m. \<not> resolves h m) (copied options k)
                 \<Longrightarrow> cloneNode fuel h options k r w = (Return (Some c), w')
                 \<Longrightarrow> cloneOf h (set (copiedIds options k)) c"
    and nu: "list_all (\<lambda>m. \<not> resolves h m) (copied options n)"
    and s0: "cloneSingleNode fuel h options n w = (Return c0, w1)"
    and s1: "cloneChildren fuel h options n c0 w1 = (Return c1, w2)"
  shows "cloneOf h (set (copiedIds options n)) c1"
    and "\<not> isSVGElement c0 \<Longrightarrow> \<not> copiesDeep n"
proof -
  let ?S = "set (copiedIds options n)"
  have pn: "list_all (\<lambda>m. \<not> resolves h m) (copied options k)" if "k \<in> set (parts options n)" for k
    using nu copied_part [OF that] by (auto simp: list_all_iff)
  have k0: "cloneOf h ?S c0"
  proof (rule cloneSingleNode_copied [OF nu _ s0])
    fix b w c w'
    assume nb: "nestedBody n = Some b"
      and cl: "cloneNode fuel h options b True w = (Return (Some c), w')"
    have "b \<in> set (parts options n)" using nb by (simp add: parts_def)
    then show "cloneOf h (set (copiedIds options b)) c"
      using ih [OF pn cl] by simp
  qed
  show nd: "\<not> copiesDeep n" if "\<not> isSVGElement c0"
  proof
    assume cd: "copiesDeep n"
    then have "c0 = deepClone n"
      using s0 by (simp add: cloneSingleNode.simps copiesDeep_def domCloneNode_def)
    then show False using cd that by (simp add: isSVGElement_deepClone copiesDeep_def)
  qed
  show "cloneOf h ?S c1"
  proof (cases "isSVGElement c0 \<or> childrenToClone n = [] \<or> isInstanceOfElement n HTMLVideoElement")
    case True
    then have "c1 = c0" using s1 by (auto simp: cloneChildren.simps Let_def split: if_splits)
    then show ?thesis using k0 by simp
  next
    case False
    then have l: "cloneChildrenLoop fuel h options (childrenToClone n) c0 w1 = (Return c1, w2)"
      using s1 by (simp add: cloneChildren.simps Let_def split: if_splits)
    have nv: "\<not> isInstanceOfElement n HTMLVideoElement" using False by simp
    have kids: "\<forall>k \<in> set (childrenToClone n). \<not> excluded options k False
                  \<longrightarrow> list_all (\<lambda>m. \<not> resolves h m) (copied options k)
                      \<and> set (copiedIds options k) \<subseteq> ?S"
    proof (intro ballI impI)
      fix k
      assume k: "k \<in> set (childrenToClone n)" and a: "\<not> excluded options k False"
      have "set (copied options k) \<subseteq> set (copied options n)"
        by (rule loop_child_copied [OF nd nv k a]) (use False in simp)
      then show "list_all (\<lambda>m. \<not> resolves h m) (copied options k)
                 \<and> set (copiedIds options k) \<subseteq> ?S"
        using nu by (auto simp: list_all_iff copiedIds_def)
    qed
    show ?thesis
      by (rule cloneChildrenLoop_copied [OF ih kids k0 l])
  qed
qed

lemma symbols_step:
  assumes "isUse u" and "\<not> resolves h u"
  shows "ensureSVGSymbolsLoop fuel h options clone (u # rest) defs w
         = bind (maybeYieldToMain options w)
             (\<lambda>_ w1. ensureSVGSymbolsLoop fuel h options clone rest defs w1)"
proof -
  have "(case getAttribute u ''xlink:href'' of
           None \<Rightarrow> ensureSVGSymbolsLoop fuel h options clone rest defs w1
         | Some ref \<Rightarrow>
             if ref = [] then ensureSVGSymbolsLoop fuel h options clone rest defs w1
             else
               (case parseSelector ref of
                  None \<Rightarrow> (Unmodelled, w1)
                | Some sel \<Rightarrow>
                    (case documentQuerySelector h sel of
                       None \<Rightarrow> ensureSVGSymbolsLoop fuel h options clone rest defs w1
                     | Some definition \<Rightarrow>
                         if querySelector clone sel = None \<and> \<not> hasProperty defs ref
                         then
                           bind (cloneNode fuel h options definition True w1) (\<lambda>cloned w2.
                             case cloned of
                               Some c \<Rightarrow>
                                 ensureSVGSymbolsLoop fuel h options clone rest
                                   (defs @ [(ref, c)]) w2
                             | None \<Rightarrow> (Throw (OtherError ''null''), w2))
                         else ensureSVGSymbolsLoop fuel h options clone rest defs w1)))
        = ensureSVGSymbolsLoop fuel h options clone rest defs w1" for w1
    using assms by (auto simp: resolves_def split: option.splits)
  then show ?thesis
    unfolding ensureSVGSymbolsLoop.simps by simp
qed

lemma symbols_loop:
  assumes "\<forall>u \<in> set uses. isUse u \<and> \<not> resolves h u"
  shows "ensureSVGSymbolsLoop fuel h options clone uses defs w = (Return x, w') \<Longrightarrow> x = defs"
    and "\<not> nonBlocking options
         \<Longrightarrow> ensureSVGSymbolsLoop fuel h options clone uses defs w = (Return defs, w)"
    and "answers (ensureSVGSymbolsLoop fuel h options clone uses defs w)"
  using assms
proof (induction uses arbitrary: w)
  case Nil
  {
    case 1
    then show ?case by simp
  next
    case 2
    then show ?case by simp
  next
    case 3
    then show ?case by (simp add: answers_def)
  }
next
  case (Cons u rest)
  {
    case 1
    then have st: "bind (maybeYieldToMain options w)
             (\<lambda>_ w1. ensureSVGSymbolsLoop fuel h options clone rest defs w1) = (Return x, w')"
      using symbols_step [of u h fuel options clone rest defs w] by simp
    then obtain a w1 where "ensureSVGSymbolsLoop fuel h options clone rest defs w1 = (Return x, w')"
      by (rule bind_Return)
    then show ?case using Cons.IH(1) 1(2) by simp
  next
    case 2
    then have "ensureSVGSymbolsLoop fuel h options clone (u # rest) defs w
               = bind (maybeYieldToMain options w)
                   (\<lambda>_ w1. ensureSVGSymbolsLoop fuel h options clone rest defs w1)"
      using symbols_step [of u h fuel options clone rest defs w] by simp
    moreover have "maybeYieldToMain options w = (Return (), w)"
      using 2(1) by (simp add: maybeYieldToMain_def split: option.splits)
    ultimately show ?case using Cons.IH(2) 2 by (simp add: bind_def)
  next
    case 3
    then have "ensureSVGSymbolsLoop fuel h options clone (u # rest) defs w
               = bind (maybeYieldToMain options w)
                   (\<lambda>_ w1. ensureSVGSymbolsLoop fuel h options clone rest defs w1)"
      using symbols_step [of u h fuel options clone rest defs w] by simp
    moreover have "answers (bind (maybeYieldToMain options w)
                   (\<lambda>_ w1. ensureSVGSymbolsLoop fuel h options clone rest defs w1))"
      by (rule answers_bind [OF maybeYieldToMain_answers]) (use Cons.IH(3) 3 in simp)
    ultimately show ?case by simp
  }
qed

lemma no_symbols:
  assumes "cloneOf h S c1"
  shows "ensureSVGSymbols fuel h options (decorate h n c1) w = (Return x, w')
         \<Longrightarrow> x = decorate h n c1"
    and "\<not> nonBlocking options
         \<Longrightarrow> ensureSVGSymbols fuel h options (decorate h n c1) w = (Return (decorate h n c1), w)"
    and "answers (ensureSVGSymbols fuel h options (decorate h n c1) w)"
proof -
  let ?clone = "decorate h n c1"
  let ?uses = "if isElement ?clone then querySelectorAll ?clone (TypeSelector ''use'') else []"
  have "cloneOf h S ?clone"
    using assms by (rule cloneOf_decorate)
  then have u: "\<forall>u \<in> set ?uses. isUse u \<and> \<not> resolves h u"
    using cloneOf_uses by auto
  note lp = symbols_loop [OF u]
  have e: "ensureSVGSymbols fuel h options ?clone w
           = (if ?uses = [] then (Return ?clone, w)
              else bind (ensureSVGSymbolsLoop fuel h options ?clone ?uses [] w)
                     (\<lambda>processedDefs w1.
                        let nodes = map snd processedDefs
                        in if nodes \<noteq> [] then (Return (appendChild ?clone (symbolContainer nodes)), w1)
                           else (Return ?clone, w1)))"
    by (simp add: ensureSVGSymbols.simps Let_def)
  show "x = ?clone" if r: "ensureSVGSymbols fuel h options ?clone w = (Return x, w')"
  proof (cases "?uses = []")
    case True
    then show ?thesis using r e by simp
  next
    case False
    then have "bind (ensureSVGSymbolsLoop fuel h options ?clone ?uses [] w)
                     (\<lambda>processedDefs w1.
                        let nodes = map snd processedDefs
                        in if nodes \<noteq> [] then (Return (appendChild ?clone (symbolContainer nodes)), w1)
                           else (Return ?clone, w1)) = (Return x, w')"
      using r e by simp
    then obtain ds w1 where l: "ensureSVGSymbolsLoop fuel h options ?clone ?uses [] w = (Return ds, w1)"
      and k: "(let nodes = map snd ds
               in if nodes \<noteq> [] then (Return (appendChild ?clone (symbolContainer nodes)), w1)
                  else (Return ?clone, w1)) = (Return x, w')"
      by (rule bind_Return)
    have "ds = []" using lp(1) [OF l] .
    then show ?thesis using k by simp
  qed
  show "ensureSVGSymbols fuel h options ?clone w = (Return ?clone, w)" if "\<not> nonBlocking options"
    using e lp(2) [OF that, of fuel ?clone "[]" w] by (simp add: bind_def)
  show "answers (ensureSVGSymbols fuel h options ?clone w)"
  proof (cases "?uses = []")
    case True
    then show ?thesis using e by (simp add: answers_def)
  next
    case False
    have "answers (bind (ensureSVGSymbolsLoop fuel h options ?clone ?uses [] w)
                     (\<lambda>processedDefs w1.
                        let nodes = map snd processedDefs
                        in if nodes \<noteq> [] then (Return (appendChild ?clone (symbolContainer nodes)), w1)
                           else (Return ?clone, w1)))"
      by (rule answers_bind [OF lp(3)]) (simp add: Let_def answers_def)
    then show ?thesis using False e by simp
  qed
qed

lemma cloneNode_copied:
  "list_all (\<lambda>m. \<not> resolves h m) (copied options n)
   \<Longrightarrow> cloneNode fuel h options n isRoot w = (Return (Some c), w')
   \<Longrightarrow> cloneOf h (set (copiedIds options n)) c"
proof (induction fuel arbitrary: n isRoot w c w')
  case 0
  then show ?case by (simp split: if_splits)
next
  case (Suc fuel)
  let ?S = "set (copiedIds options n)"
  have ne: "\<not> excluded options n isRoot"
    using Suc.prems(2) by (rule cloneNode_Some_accepted)
  then have "bind (cloneSingleNode fuel h options n (spend n w)) (\<lambda>clonedNode w1.
        bind (cloneChildren fuel h options n clonedNode w1) (\<lambda>clonedNode w2.
        bind (ensureSVGSymbols fuel h options (decorate h n clonedNode) w2) (\<lambda>clonedNode w3.
          (Return (Some clonedNode), w3)))) = (Return (Some c), w')"
    using Suc.prems(2) by simp
  then obtain c0 w1 where s0: "cloneSingleNode fuel h options n (spend n w) = (Return c0, w1)"
    and r1: "bind (cloneChildren fuel h options n c0 w1) (\<lambda>clonedNode w2.
        bind (ensureSVGSymbols fuel h options (decorate h n clonedNode) w2) (\<lambda>clonedNode w3.
          (Return (Some clonedNode), w3))) = (Return (Some c), w')"
    by (rule bind_Return)
  from r1 obtain c1 w2 where s1: "cloneChildren fuel h options n c0 w1 = (Return c1, w2)"
    and r2: "bind (ensureSVGSymbols fuel h options (decorate h n c1) w2) (\<lambda>clonedNode w3.
          (Return (Some clonedNode), w3)) = (Return (Some c), w')"
    by (rule bind_Return)
  have ih: "\<And>k r w c w'. list_all (\<lambda>m. \<not> resolves h m) (copied options k)
              \<Longrightarrow> cloneNode fuel h options k r w = (Return (Some c), w')
              \<Longrightarrow> cloneOf h (set (copiedIds options k)) c"
    using Suc.IH by blast
  have k1: "cloneOf h ?S c1"
    by (rule cloneChildren_copied(1) [OF ih Suc.prems(1) s0 s1])
  from r2 obtain c2 w3
    where s2: "ensureSVGSymbols fuel h options (decorate h n c1) w2 = (Return c2, w3)"
    and r3: "(Return (Some c2), w3) = (Return (Some c), w')"
    by (rule bind_Return)
  have "c = decorate h n c1"
    using no_symbols(1) [OF k1 s2] r3 by simp
  then show ?case using k1 by (simp add: cloneOf_decorate)
qed















lemma isSVGElement_prune: "isSVGElement (prune options n) = isSVGElement n"
  by (cases n) simp_all

lemma contentBody_prune: "contentBody (prune options n) = contentBody n"
  by (cases n) simp_all

lemma shallowClone_prune: "shallowClone (prune options n) = shallowClone n"
  by (cases n) simp_all







text \<open>
  The fuel bounds the depth of the recursion only. For a source tree from which no \<open>use\<close>
  element is copied whose reference resolves, any fuel above the size of the tree is
  enough, whatever the options: the cloner returns a result or raises an error of the
  program.
\<close>

lemma canvasToDataURLChunked_answers: "answers (canvasToDataURLChunked h options s w)"
  by (simp add: canvasToDataURLChunked_def Let_def answers_def split: prod.splits)

lemma cloneCanvasElement_answers: "answers (cloneCanvasElement h options n w)"
proof (cases n)
  case (TextNode i s)
  then show ?thesis by (simp add: answers_def)
next
  case (Element p ks sh b a)
  have "answers (tryCatch
               (bind (canvasToDataURLChunked h options (bitmap p) w)
                  (\<lambda>dataURL w1. (Return (createImage (nid p) dataURL), w1)))
               (\<lambda>e w1. (Return (createImage (nid p) (toDataURL h (bitmap p))), w1)))"
    by (intro answers_tryCatch answers_bind canvasToDataURLChunked_answers)
       (simp_all add: answers_def)
  then show ?thesis using Element by (simp add: Let_def answers_def)
qed

lemma cloneVideoElement_answers: "answers (cloneVideoElement h options n w)"
  by (cases n) (simp_all add: Let_def answers_def split: option.splits)

lemma cloneSingleNode_answers:
  assumes "\<And>b w. nestedBody n = Some b \<Longrightarrow> answers (cloneNode fuel h options b True w)"
  shows "answers (cloneSingleNode fuel h options n w)"
proof (cases "isInstanceOfElement n HTMLIFrameElement \<and> contentBody n \<noteq> None")
  case True
  then obtain body where b: "contentBody n = Some body" by auto
  then have nb: "nestedBody n = Some body" using True by (cases n) simp_all
  have "answers (tryCatch
              (bind (cloneNode fuel h options body True w) (\<lambda>cloned w1.
                 case cloned of
                   Some c \<Rightarrow> (Return c, w1)
                 | None \<Rightarrow> (Throw (OtherError ''null''), w1)))
              (\<lambda>e w1. (Return (domCloneNode n False), w1)))"
    by (intro answers_tryCatch answers_bind assms [OF nb])
       (simp_all add: answers_def split: option.splits)
  then show ?thesis
    using True b cloneCanvasElement_answers cloneVideoElement_answers
    by (simp add: cloneSingleNode.simps cloneIFrameElement.simps)
next
  case False
  then show ?thesis
    using cloneCanvasElement_answers cloneVideoElement_answers
    by (auto simp: cloneSingleNode.simps cloneIFrameElement.simps answers_def)
qed

lemma cloneChildrenLoop_answers:
  assumes ih: "\<And>k w. k \<in> set kids \<Longrightarrow> answers (cloneNode fuel h options k False w)"
  shows "answers (cloneChildrenLoop fuel h options kids acc w)"
  using ih
proof (induction kids arbitrary: acc w)
  case Nil
  then show ?case by (simp add: answers_def)
next
  case (Cons child rest)
  show ?case
    unfolding cloneChildrenLoop.simps
  proof (intro answers_bind maybeYieldToMain_answers)
    fix u w1
    show "answers (cloneNode fuel h options child False w1)"
      using Cons.prems by simp
  next
    fix u w1 clonedChild w2
    show "answers (cloneChildrenLoop fuel h options rest
                 (case clonedChild of Some c \<Rightarrow> appendChild acc c | None \<Rightarrow> acc) w2)"
      using Cons.IH Cons.prems by simp
  qed
qed

lemma cloneNode_enough_fuel:
  "list_all (\<lambda>m. \<not> resolves h m) (copied options n) \<Longrightarrow> size n < fuel
   \<Longrightarrow> answers (cloneNode fuel h options n isRoot w)"
proof (induction fuel arbitrary: n isRoot w)
  case 0
  then show ?case by simp
next
  case (Suc fuel)
  show ?case
  proof (cases "excluded options n isRoot")
    case True
    then show ?thesis by (simp add: answers_def)
  next
    case False
    have part: "answers (cloneNode fuel h options k r w0)"
      if "set (copied options k) \<subseteq> set (copied options n)" and "size k < size n" for k r w0
    proof -
      have "list_all (\<lambda>m. \<not> resolves h m) (copied options k)"
        using Suc.prems(1) that(1) by (auto simp: list_all_iff)
      moreover have "size k < fuel" using that(2) Suc.prems(2) by simp
      ultimately show ?thesis by (rule Suc.IH)
    qed
    have "answers (bind (cloneSingleNode fuel h options n (spend n w)) (\<lambda>clonedNode w1.
            bind (cloneChildren fuel h options n clonedNode w1) (\<lambda>clonedNode w2.
            bind (ensureSVGSymbols fuel h options (decorate h n clonedNode) w2) (\<lambda>clonedNode w3.
              (Return (Some clonedNode), w3)))))"
    proof (rule answers_bind)
      show "answers (cloneSingleNode fuel h options n (spend n w))"
      proof (rule cloneSingleNode_answers)
        fix b w0
        assume nb: "nestedBody n = Some b"
        then have "b \<in> set (parts options n)" by (simp add: parts_def)
        then show "answers (cloneNode fuel h options b True w0)"
          using part copied_part parts_smaller by blast
      qed
    next
      fix c0 w1
      assume s0: "cloneSingleNode fuel h options n (spend n w) = (Return c0, w1)"
      show "answers (bind (cloneChildren fuel h options n c0 w1) (\<lambda>clonedNode w2.
              bind (ensureSVGSymbols fuel h options (decorate h n clonedNode) w2) (\<lambda>clonedNode w3.
                (Return (Some clonedNode), w3))))"
      proof (rule answers_bind)
        show "answers (cloneChildren fuel h options n c0 w1)"
        proof (cases "isSVGElement c0 \<or> childrenToClone n = []
                      \<or> isInstanceOfElement n HTMLVideoElement")
          case True
          then show ?thesis by (auto simp: cloneChildren.simps Let_def answers_def)
        next
          case lp: False
          have nd: "\<not> copiesDeep n"
          proof
            assume cd: "copiesDeep n"
            then have "c0 = deepClone n"
              using s0 by (simp add: cloneSingleNode.simps copiesDeep_def domCloneNode_def)
            then show False using cd lp by (simp add: isSVGElement_deepClone copiesDeep_def)
          qed
          have "answers (cloneNode fuel h options k False w0)"
            if k: "k \<in> set (childrenToClone n)" for k w0
          proof (cases "excluded options k False")
            case True
            then show ?thesis by (simp add: cloneNode_excluded answers_def)
          next
            case False
            have "set (copied options k) \<subseteq> set (copied options n)"
              by (rule loop_child_copied [OF nd _ k False]) (use lp in simp)
            then show ?thesis
              using part childrenToClone_smaller [OF k] by blast
          qed
          then have "answers (cloneChildrenLoop fuel h options (childrenToClone n) c0 w1)"
            by (rule cloneChildrenLoop_answers)
          then show ?thesis using lp by (simp add: cloneChildren.simps Let_def)
        qed
      next
        fix c1 w2
        assume s1: "cloneChildren fuel h options n c0 w1 = (Return c1, w2)"
        have k1: "cloneOf h (set (copiedIds options n)) c1"
          by (rule cloneChildren_copied(1) [OF cloneNode_copied Suc.prems(1) s0 s1])
        show "answers (bind (ensureSVGSymbols fuel h options (decorate h n c1) w2)
                          (\<lambda>clonedNode w3. (Return (Some clonedNode), w3)))"
          by (rule answers_bind [OF no_symbols(3) [OF k1]]) (simp add: answers_def)
      qed
    qed
    then show ?thesis using False by simp
  qed
qed




end
